theory Spec2Isabelle
  imports Main "HOL-Library.Word" "HOL-Library.AList"
begin

unbundle bit_operations_syntax

section \<open>Data model of the pod cache (pkg/cri/resource-manager/cache/pod.go)\<close>

text \<open>
  A Go map is modelled as an association list: the list order is the order in which
  one \<^verbatim>\<open>range\<close> loop visits the entries. Nothing below depends on that order or on the
  keys being distinct. A nil map is the empty list.

  A \<^verbatim>\<open>resource.Quantity\<close> is an exact decimal number; it is modelled as the integer
  count of its smallest unit, so \<^verbatim>\<open>Add\<close> is \<open>+\<close> and \<^verbatim>\<open>Cmp\<close> compares.
\<close>

type_synonym Quantity = int
type_synonym ResourceName = string
type_synonym ResourceList = "(ResourceName \<times> Quantity) list"

text \<open>\<^verbatim>\<open>v1.ResourceRequirements\<close>: the limits and the requests of one container.\<close>

record ResourceRequirements =
  Limits :: ResourceList
  Requests :: ResourceList

text \<open>
  Modelled from the spec: the declaration of \<^verbatim>\<open>PodResourceRequirements\<close> is not in
  pod.go. The code reads \<^verbatim>\<open>Containers\<close> as a map from container id to resource
  requirements and tests \<^verbatim>\<open>InitContainers\<close> for membership of a container id; the
  spec describes the latter as a mapping used as a membership set.
\<close>

record PodResourceRequirements =
  InitContainers :: "(string \<times> bool) list"
  Containers :: "(string \<times> ResourceRequirements) list"

definition zeroPodResourceRequirements :: PodResourceRequirements where
  "zeroPodResourceRequirements = \<lparr>InitContainers = [], Containers = []\<rparr>"

text \<open>
  Modelled from the spec: the container entity is declared outside pod.go. The code
  reads its \<^verbatim>\<open>Id\<close>; the spec gives it a relationship to its owning pod id.
\<close>

record container =
  Id :: string
  PodId :: string

text \<open>
  Errors: a \<^verbatim>\<open>cacheError\<close> with its format string and the pod id, a
  \<^verbatim>\<open>*strconv.NumError\<close> with its fields \<^verbatim>\<open>Func\<close>, \<^verbatim>\<open>Num\<close> and \<^verbatim>\<open>Err\<close>, and the error of
  a JSON or custom decoder.
\<close>

datatype num_err = ErrSyntax | ErrRange | ErrBase int | ErrBitSize int

datatype error =
    CacheError string string
  | NumError string string num_err
  | DecodeError string

text \<open>What \<^verbatim>\<open>p.cache.Error\<close> and \<^verbatim>\<open>p.cache.Warn\<close> write.\<close>

datatype log_entry =
    LogError string string error
  | LogWarn string

text \<open>
  The cache a pod points to: the container collection, in iteration order, and the
  messages logged so far. The pointer \<^verbatim>\<open>p.cache\<close> is taken to be set.
\<close>

record cache =
  cacheContainers :: "container list"
  cacheLog :: "log_entry list"

type_synonym PodState = "32 word"
type_synonym PodQOSClass = string

record pod =
  podCache :: cache
  podId :: string
  Uid :: string
  Name :: string
  Namespace :: string
  State :: PodState
  QOSClass :: PodQOSClass
  Labels :: "(string \<times> string) list"
  Annotations :: "(string \<times> string) list"
  CgroupParent :: string
  Resources :: "PodResourceRequirements option"

definition ResourceCPU :: ResourceName where "ResourceCPU = ''cpu''"
definition ResourceMemory :: ResourceName where "ResourceMemory = ''memory''"

definition PodQOSGuaranteed :: PodQOSClass where "PodQOSGuaranteed = ''Guaranteed''"
definition PodQOSBurstable :: PodQOSClass where "PodQOSBurstable = ''Burstable''"
definition PodQOSBestEffort :: PodQOSClass where "PodQOSBestEffort = ''BestEffort''"

section \<open>The QoS class of a pod\<close>

definition isSupportedQoSComputeResource :: "ResourceName \<Rightarrow> bool" where
  "isSupportedQoSComputeResource name \<longleftrightarrow> name = ResourceCPU \<or> name = ResourceMemory"

text \<open>\<^verbatim>\<open>zeroQuantity := resource.MustParse("0")\<close>\<close>

definition zeroQuantity :: Quantity where "zeroQuantity = 0"

text \<open>
  The body shared by the two inner loops: add \<open>quantity\<close> to the entry of \<open>name\<close>,
  creating the entry when there is none.
\<close>

definition addQuantity :: "ResourceName \<Rightarrow> Quantity \<Rightarrow> ResourceList \<Rightarrow> ResourceList" where
  "addQuantity name quantity list =
     (case map_of list name of
        None \<Rightarrow> AList.update name quantity list
      | Some old \<Rightarrow> AList.update name (quantity + old) list)"

text \<open>The loop over \<^verbatim>\<open>resources.Requests\<close> (lines 261 to 274).\<close>

fun processRequests :: "ResourceList \<Rightarrow> ResourceList \<Rightarrow> ResourceList" where
  "processRequests requests [] = requests"
| "processRequests requests ((name, quantity) # rest) =
     (if \<not> isSupportedQoSComputeResource name then processRequests requests rest
      else if quantity > zeroQuantity
        then processRequests (addQuantity name quantity requests) rest
      else processRequests requests rest)"

text \<open>
  The loop over \<^verbatim>\<open>resources.Limits\<close> (lines 277 to 291), which also collects
  \<^verbatim>\<open>qosLimitsFound\<close>.
\<close>

fun processLimits ::
  "ResourceList \<times> string set \<Rightarrow> ResourceList \<Rightarrow> ResourceList \<times> string set" where
  "processLimits (limits, qosLimitsFound) [] = (limits, qosLimitsFound)"
| "processLimits (limits, qosLimitsFound) ((name, quantity) # rest) =
     (if \<not> isSupportedQoSComputeResource name
        then processLimits (limits, qosLimitsFound) rest
      else if quantity > zeroQuantity
        then processLimits (addQuantity name quantity limits, insert name qosLimitsFound) rest
      else processLimits (limits, qosLimitsFound) rest)"

text \<open>
  The loop over \<^verbatim>\<open>podResources.Containers\<close> (lines 259 to 296). The state is
  \<open>(requests, limits, isGuaranteed)\<close>.
\<close>

fun aggregateContainers ::
  "ResourceList \<times> ResourceList \<times> bool \<Rightarrow> (string \<times> ResourceRequirements) list
     \<Rightarrow> ResourceList \<times> ResourceList \<times> bool" where
  "aggregateContainers st [] = st"
| "aggregateContainers (requests, limits, isGuaranteed) ((cid, resources) # rest) =
     (let requests' = processRequests requests (Requests resources);
          (limits', qosLimitsFound) = processLimits (limits, {}) (Limits resources);
          isGuaranteed' =
            (if \<not> {ResourceMemory, ResourceCPU} \<subseteq> qosLimitsFound then False
             else isGuaranteed)
      in aggregateContainers (requests', limits', isGuaranteed') rest)"

text \<open>
  The check that requests match limits (lines 303 to 308): the loop leaves with
  \<open>False\<close> at the first request that has no equal limit.
\<close>

fun requestsMatchLimits :: "ResourceList \<Rightarrow> ResourceList \<Rightarrow> bool" where
  "requestsMatchLimits limits [] = True"
| "requestsMatchLimits limits ((name, req) # rest) =
     (case map_of limits name of
        None \<Rightarrow> False
      | Some lim \<Rightarrow> if lim \<noteq> req then False else requestsMatchLimits limits rest)"

datatype panic = NilPointerDereference

text \<open>
  \<^verbatim>\<open>GetPodQOS\<close> returns the class and the pod with the class stored. Reading
  \<^verbatim>\<open>podResources.Containers\<close> through a nil \<^verbatim>\<open>p.Resources\<close> is a run-time panic.
\<close>

definition GetPodQOS :: "pod \<Rightarrow> panic + (PodQOSClass \<times> pod)" where
  "GetPodQOS p =
     (if QOSClass p \<noteq> [] then Inr (QOSClass p, p)
      else case Resources p of
        None \<Rightarrow> Inl NilPointerDereference
      | Some podResources \<Rightarrow>
          (let (requests, limits, isGuaranteed) =
                 aggregateContainers ([], [], True) (Containers podResources)
           in if length requests = 0 \<and> length limits = 0
                then Inr (PodQOSBestEffort, p\<lparr>QOSClass := PodQOSBestEffort\<rparr>)
              else
                (let isGuaranteed' =
                       (if isGuaranteed then requestsMatchLimits limits requests
                        else isGuaranteed)
                 in if isGuaranteed' \<and> length requests = length limits
                      then Inr (PodQOSGuaranteed, p\<lparr>QOSClass := PodQOSGuaranteed\<rparr>)
                    else Inr (PodQOSBurstable, p\<lparr>QOSClass := PodQOSBurstable\<rparr>))))"

section \<open>Protocol messages\<close>

text \<open>
  The CRI messages a pod is built from, with the fields pod.go reads:
  \<^verbatim>\<open>RunPodSandboxRequest\<close>, \<^verbatim>\<open>PodSandboxConfig\<close>, \<^verbatim>\<open>PodSandboxMetadata\<close>,
  \<^verbatim>\<open>LinuxPodSandboxConfig\<close> and \<^verbatim>\<open>PodSandbox\<close>. A pointer field that may be nil is an
  option.
\<close>

record PodSandboxMetadata =
  mdName :: string
  mdNamespace :: string

record LinuxPodSandboxConfig =
  lnxCgroupParent :: string

record PodSandboxConfig =
  cfgMetadata :: "PodSandboxMetadata option"
  cfgLabels :: "(string \<times> string) list"
  cfgAnnotations :: "(string \<times> string) list"
  cfgLinux :: "LinuxPodSandboxConfig option"

record RunPodSandboxRequest =
  reqConfig :: "PodSandboxConfig option"

record PodSandbox =
  sbMetadata :: "PodSandboxMetadata option"
  sbState :: "32 word"
  sbLabels :: "(string \<times> string) list"
  sbAnnotations :: "(string \<times> string) list"

section \<open>The strconv parsers the default decoders call\<close>

text \<open>
  \<^verbatim>\<open>strconv.ParseBool\<close>, \<^verbatim>\<open>strconv.ParseUint\<close> and \<^verbatim>\<open>strconv.ParseInt\<close> belong to the
  Go standard library (Go 1.13, the toolchain of the build), not to this repository;
  they are written out here after the library's code so that the default decoders of
  \<^verbatim>\<open>GetAnnotationObject\<close> can be run. A byte is read through its code; \<^verbatim>\<open>uint64\<close>
  arithmetic is on \<open>nat\<close> with the wrap-around \<open>mod 2 ^ 64\<close> written out.
\<close>

definition byte :: "char \<Rightarrow> nat" where
  "byte c = of_char c"

text \<open>\<^verbatim>\<open>lower(c) = c | ('x' - 'X')\<close>\<close>

definition lower :: "char \<Rightarrow> nat" where
  "lower c = byte c OR 32"

definition maxUint64 :: nat where
  "maxUint64 = 2 ^ 64 - 1"

text \<open>\<^verbatim>\<open>strconv.IntSize\<close>: the width of \<^verbatim>\<open>int\<close> and \<^verbatim>\<open>uint\<close>, on a 64-bit platform.\<close>

definition IntSize :: int where
  "IntSize = 64"

definition fnParseUint :: string where "fnParseUint = ''ParseUint''"
definition fnParseInt :: string where "fnParseInt = ''ParseInt''"

definition syntaxError :: "string \<Rightarrow> string \<Rightarrow> error" where
  "syntaxError fn str = NumError fn str ErrSyntax"

definition rangeError :: "string \<Rightarrow> string \<Rightarrow> error" where
  "rangeError fn str = NumError fn str ErrRange"

definition baseError :: "string \<Rightarrow> string \<Rightarrow> int \<Rightarrow> error" where
  "baseError fn str base = NumError fn str (ErrBase base)"

definition bitSizeError :: "string \<Rightarrow> string \<Rightarrow> int \<Rightarrow> error" where
  "bitSizeError fn str bitSize = NumError fn str (ErrBitSize bitSize)"

definition ParseBool :: "string \<Rightarrow> bool \<times> error option" where
  "ParseBool str =
     (if str \<in> set [''1'', ''t'', ''T'', ''true'', ''TRUE'', ''True''] then (True, None)
      else if str \<in> set [''0'', ''f'', ''F'', ''false'', ''FALSE'', ''False'']
        then (False, None)
      else (False, Some (syntaxError ''ParseBool'' str)))"

text \<open>
  \<^verbatim>\<open>underscoreOK\<close>: underscores must separate digits. \<open>saw\<close> is the last character
  class seen: the start of the number, a digit or base prefix, an underscore, or anything
  else.
\<close>

datatype saw = SawStart | SawDigit | SawUnderscore | SawOther

fun underscoreScan :: "bool \<Rightarrow> saw \<Rightarrow> string \<Rightarrow> bool" where
  "underscoreScan hex saw [] = (saw \<noteq> SawUnderscore)"
| "underscoreScan hex saw (c # cs) =
     (if (byte CHR ''0'' \<le> byte c \<and> byte c \<le> byte CHR ''9'') \<or>
         (hex \<and> byte CHR ''a'' \<le> lower c \<and> lower c \<le> byte CHR ''f'')
        then underscoreScan hex SawDigit cs
      else if c = CHR ''_''
        then (if saw \<noteq> SawDigit then False else underscoreScan hex SawUnderscore cs)
      else if saw = SawUnderscore then False
      else underscoreScan hex SawOther cs)"

definition underscoreOK :: "string \<Rightarrow> bool" where
  "underscoreOK s =
     (let s1 = (if length s \<ge> 1 \<and> (s ! 0 = CHR ''-'' \<or> s ! 0 = CHR ''+'') then drop 1 s
                else s)
      in if length s1 \<ge> 2 \<and> s1 ! 0 = CHR ''0'' \<and>
            (lower (s1 ! 1) = byte CHR ''b'' \<or> lower (s1 ! 1) = byte CHR ''o'' \<or>
             lower (s1 ! 1) = byte CHR ''x'')
           then underscoreScan (lower (s1 ! 1) = byte CHR ''x'') SawDigit (drop 2 s1)
         else underscoreScan False SawStart s1)"

text \<open>The value of one digit in the loop of \<^verbatim>\<open>ParseUint\<close>; \<open>None\<close> is no digit.\<close>

definition digitValue :: "char \<Rightarrow> nat option" where
  "digitValue c =
     (if byte CHR ''0'' \<le> byte c \<and> byte c \<le> byte CHR ''9''
        then Some (byte c - byte CHR ''0'')
      else if byte CHR ''a'' \<le> lower c \<and> lower c \<le> byte CHR ''z''
        then Some (lower c - byte CHR ''a'' + 10)
      else None)"

datatype scan = ScanSyntax | ScanRange | ScanDone nat bool

text \<open>The digit loop of \<^verbatim>\<open>ParseUint\<close>, with the state \<open>(underscores, n)\<close>.\<close>

fun scanDigits :: "bool \<Rightarrow> nat \<Rightarrow> nat \<Rightarrow> nat \<Rightarrow> bool \<Rightarrow> nat \<Rightarrow> string \<Rightarrow> scan" where
  "scanDigits base0 base cutoff maxVal underscores n [] = ScanDone n underscores"
| "scanDigits base0 base cutoff maxVal underscores n (c # cs) =
     (if c = CHR ''_'' \<and> base0 then scanDigits base0 base cutoff maxVal True n cs
      else case digitValue c of
        None \<Rightarrow> ScanSyntax
      | Some d \<Rightarrow>
          if d \<ge> base then ScanSyntax
          else if n \<ge> cutoff then ScanRange
          else
            (let n' = (n * base) mod 2 ^ 64;
                 n1 = (n' + d) mod 2 ^ 64
             in if n1 < n' \<or> n1 > maxVal then ScanRange
                else scanDigits base0 base cutoff maxVal underscores n1 cs))"

text \<open>With base 0 the base is read off the prefix, which is cut from the string.\<close>

definition detectBase :: "string \<Rightarrow> nat \<times> string" where
  "detectBase s =
     (if s ! 0 = CHR ''0'' then
        (if length s \<ge> 3 \<and> lower (s ! 1) = byte CHR ''b'' then (2, drop 2 s)
         else if length s \<ge> 3 \<and> lower (s ! 1) = byte CHR ''o'' then (8, drop 2 s)
         else if length s \<ge> 3 \<and> lower (s ! 1) = byte CHR ''x'' then (16, drop 2 s)
         else (8, drop 1 s))
      else (10, s))"

definition ParseUint :: "string \<Rightarrow> int \<Rightarrow> int \<Rightarrow> nat \<times> error option" where
  "ParseUint s base bitSize =
     (if s = [] then (0, Some (syntaxError fnParseUint s))
      else
        (let base0 = (base = 0);
             s0 = s
         in case (if 2 \<le> base \<and> base \<le> 36 then Some (nat base, s)
                  else if base = 0 then Some (detectBase s)
                  else None) of
              None \<Rightarrow> (0, Some (baseError fnParseUint s0 base))
            | Some (base', s') \<Rightarrow>
                (case (if bitSize = 0 then Some IntSize
                       else if bitSize < 0 \<or> bitSize > 64 then None
                       else Some bitSize) of
                   None \<Rightarrow> (0, Some (bitSizeError fnParseUint s0 bitSize))
                 | Some bitSize' \<Rightarrow>
                     (let cutoff = maxUint64 div base' + 1;
                          maxVal = (2 ^ nat bitSize' mod 2 ^ 64 + 2 ^ 64 - 1) mod 2 ^ 64
                      in case scanDigits base0 base' cutoff maxVal False 0 s' of
                           ScanSyntax \<Rightarrow> (0, Some (syntaxError fnParseUint s0))
                         | ScanRange \<Rightarrow> (maxVal, Some (rangeError fnParseUint s0))
                         | ScanDone n underscores \<Rightarrow>
                             if underscores \<and> \<not> underscoreOK s0
                               then (0, Some (syntaxError fnParseUint s0))
                             else (n, None)))))"

text \<open>The conversion \<^verbatim>\<open>int64(u)\<close> of a \<^verbatim>\<open>uint64\<close>, and \<^verbatim>\<open>int64\<close> negation, which wraps.\<close>

definition toInt64 :: "nat \<Rightarrow> int" where
  "toInt64 u = (int u + 2 ^ 63) mod 2 ^ 64 - 2 ^ 63"

definition negInt64 :: "int \<Rightarrow> int" where
  "negInt64 n = (- n + 2 ^ 63) mod 2 ^ 64 - 2 ^ 63"

definition ParseInt :: "string \<Rightarrow> int \<Rightarrow> int \<Rightarrow> int \<times> error option" where
  "ParseInt s base bitSize =
     (if s = [] then (0, Some (syntaxError fnParseInt s))
      else
        (let s0 = s;
             (neg, s1) = (if s ! 0 = CHR ''+'' then (False, drop 1 s)
                          else if s ! 0 = CHR ''-'' then (True, drop 1 s)
                          else (False, s))
         in case ParseUint s1 base bitSize of
              (un, Some (NumError fn num ErrSyntax)) \<Rightarrow> (0, Some (NumError fnParseInt s0 ErrSyntax))
            | (un, Some (NumError fn num (ErrBase b))) \<Rightarrow>
                (0, Some (NumError fnParseInt s0 (ErrBase b)))
            | (un, Some (NumError fn num (ErrBitSize b))) \<Rightarrow>
                (0, Some (NumError fnParseInt s0 (ErrBitSize b)))
            | (un, err) \<Rightarrow>
                (let bitSize' = (if bitSize = 0 then IntSize else bitSize);
                     cutoff = 2 ^ nat (bitSize' - 1) mod 2 ^ 64
                 in if \<not> neg \<and> un \<ge> cutoff
                      then (toInt64 (cutoff - 1), Some (rangeError fnParseInt s0))
                    else if neg \<and> un > cutoff
                      then (negInt64 (toInt64 cutoff), Some (rangeError fnParseInt s0))
                    else
                      (let n = toInt64 un
                       in (if neg then negInt64 n else n, None)))))"

section \<open>Labels and annotations\<close>

definition GetLabel :: "pod \<Rightarrow> string \<Rightarrow> string \<times> bool" where
  "GetLabel p key = (case map_of (Labels p) key of None \<Rightarrow> ([], False) | Some v \<Rightarrow> (v, True))"

definition GetAnnotation :: "pod \<Rightarrow> string \<Rightarrow> string \<times> bool" where
  "GetAnnotation p key =
     (case map_of (Annotations p) key of None \<Rightarrow> ([], False) | Some v \<Rightarrow> (v, True))"

text \<open>
  The target \<^verbatim>\<open>objPtr\<close> of a decode, by the type the type switch finds, with the value
  it points to. \<^verbatim>\<open>int\<close> and \<^verbatim>\<open>uint\<close> are 64 bits wide (\<open>IntSize\<close>).
\<close>

datatype 'a objPtr =
    PString string
  | PBool bool
  | PInt "64 word"
  | PUint "64 word"
  | PInt64 "64 word"
  | PUint64 "64 word"
  | POther 'a

definition cacheLogError :: "pod \<Rightarrow> string \<Rightarrow> string \<Rightarrow> error \<Rightarrow> pod" where
  "cacheLogError p key val err =
     p\<lparr>podCache := (podCache p)\<lparr>cacheLog := cacheLog (podCache p) @ [LogError key val err]\<rparr>\<rparr>"

definition cacheLogWarn :: "pod \<Rightarrow> string \<Rightarrow> pod" where
  "cacheLogWarn p ident =
     p\<lparr>podCache := (podCache p)\<lparr>cacheLog := cacheLog (podCache p) @ [LogWarn ident]\<rparr>\<rparr>"

text \<open>
  \<^verbatim>\<open>GetAnnotationObject\<close> returns \<open>((found, err), target, pod)\<close>: the Go results, the
  value the target points to afterwards, and the pod, whose cache may have logged an error.
  \<open>unmarshal\<close> stands for \<^verbatim>\<open>json.Unmarshal\<close> at the type of the target: it gets the
  annotation and the target's value and returns the error and the value it leaves in the
  target. A custom \<open>decode\<close> has the same shape on any target.
\<close>

definition GetAnnotationObject ::
  "(string \<Rightarrow> 'a \<Rightarrow> error option \<times> 'a) \<Rightarrow> pod \<Rightarrow> string \<Rightarrow> 'a objPtr
     \<Rightarrow> (string \<Rightarrow> 'a objPtr \<Rightarrow> error option \<times> 'a objPtr) option
     \<Rightarrow> (bool \<times> error option) \<times> 'a objPtr \<times> pod" where
  "GetAnnotationObject unmarshal p key objPtr decode =
     (let (val, ok) = GetAnnotation p key
      in if \<not> ok then ((False, None), objPtr, p)
         else case decode of
           Some dec \<Rightarrow> (let (err, obj) = dec val objPtr in ((True, err), obj, p))
         | None \<Rightarrow>
             (let (err, obj) =
                    (case objPtr of
                       PString _ \<Rightarrow> (None, PString val)
                     | PBool _ \<Rightarrow> (let (b, err) = ParseBool val in (err, PBool b))
                     | PInt _ \<Rightarrow>
                         (let (i, err) = ParseInt val 0 0 in (err, PInt (word_of_int i)))
                     | PUint _ \<Rightarrow>
                         (let (i, err) = ParseUint val 0 0 in (err, PUint (word_of_nat i)))
                     | PInt64 _ \<Rightarrow>
                         (let (i, err) = ParseInt val 0 64 in (err, PInt64 (word_of_int i)))
                     | PUint64 _ \<Rightarrow>
                         (let (i, err) = ParseUint val 0 64 in (err, PUint64 (word_of_nat i)))
                     | POther x \<Rightarrow> (let (err, x') = unmarshal val x in (err, POther x')))
              in case err of
                   None \<Rightarrow> ((True, None), obj, p)
                 | Some e \<Rightarrow> ((True, Some e), obj, cacheLogError p key val e)))"

section \<open>Building a pod\<close>

definition KeyResourceAnnotation :: string where
  "KeyResourceAnnotation = ''intel.com/resources''"

text \<open>\<^verbatim>\<open>kubetypes.KubernetesPodUIDLabel\<close>\<close>

definition KubernetesPodUIDLabel :: string where
  "KubernetesPodUIDLabel = ''io.kubernetes.pod.uid''"

text \<open>
  Modelled from the spec: \<^verbatim>\<open>PodStateReady\<close> is declared outside pod.go; it mirrors the
  runtime's ready state, the value 0 of the CRI enumeration. Nothing proved below depends
  on the number.
\<close>

definition PodStateReady :: PodState where
  "PodStateReady = 0"

definition extractLabels :: "pod \<Rightarrow> pod" where
  "extractLabels p =
     (let (uid, ok) = GetLabel p KubernetesPodUIDLabel;
          p1 = (if \<not> ok then cacheLogWarn p (podId p) else p)
      in p1\<lparr>Uid := uid\<rparr>)"

text \<open>
  \<^verbatim>\<open>parseResourceAnnotations\<close> points \<^verbatim>\<open>p.Resources\<close> to a fresh zero model and hands
  that pointer to \<^verbatim>\<open>GetAnnotationObject\<close>, whose results it drops: the model is what the
  decoder left in the target.
\<close>

definition parseResourceAnnotations ::
  "(string \<Rightarrow> PodResourceRequirements \<Rightarrow> error option \<times> PodResourceRequirements)
     \<Rightarrow> pod \<Rightarrow> pod" where
  "parseResourceAnnotations unmarshal p =
     (let p1 = p\<lparr>Resources := Some zeroPodResourceRequirements\<rparr>;
          (res, obj, p2) =
             GetAnnotationObject unmarshal p1 KeyResourceAnnotation
               (POther zeroPodResourceRequirements) None
      in case obj of
           POther r \<Rightarrow> p2\<lparr>Resources := Some r\<rparr>
         | _ \<Rightarrow> p2)"

definition fromRunRequest ::
  "(string \<Rightarrow> PodResourceRequirements \<Rightarrow> error option \<times> PodResourceRequirements)
     \<Rightarrow> pod \<Rightarrow> RunPodSandboxRequest \<Rightarrow> error + pod" where
  "fromRunRequest unmarshal p req =
     (case reqConfig req of
        None \<Rightarrow> Inl (CacheError ''pod %s has no config'' (podId p))
      | Some cfg \<Rightarrow>
          (case cfgMetadata cfg of
             None \<Rightarrow> Inl (CacheError ''pod %s has no request metadata'' (podId p))
           | Some meta \<Rightarrow>
               Inr (extractLabels (parseResourceAnnotations unmarshal
                 (p\<lparr>Name := mdName meta,
                    Namespace := mdNamespace meta,
                    State := PodStateReady,
                    Labels := cfgLabels cfg,
                    Annotations := cfgAnnotations cfg,
                    CgroupParent :=
                      (case cfgLinux cfg of None \<Rightarrow> [] | Some l \<Rightarrow> lnxCgroupParent l)\<rparr>)))))"

definition fromListResponse ::
  "(string \<Rightarrow> PodResourceRequirements \<Rightarrow> error option \<times> PodResourceRequirements)
     \<Rightarrow> pod \<Rightarrow> PodSandbox \<Rightarrow> error + pod" where
  "fromListResponse unmarshal p sb =
     (case sbMetadata sb of
        None \<Rightarrow> Inl (CacheError ''pod %s has no reply metadata'' (podId p))
      | Some meta \<Rightarrow>
          Inr (extractLabels (parseResourceAnnotations unmarshal
            (p\<lparr>Name := mdName meta,
               Namespace := mdNamespace meta,
               State := sbState sb,
               Labels := sbLabels sb,
               Annotations := sbAnnotations sb\<rparr>))))"

section \<open>The containers of a pod\<close>

text \<open>The loop of \<^verbatim>\<open>GetInitContainers\<close> over \<^verbatim>\<open>p.cache.Containers\<close>.\<close>

fun collectInitContainers ::
  "PodResourceRequirements \<Rightarrow> container list \<Rightarrow> container list \<Rightarrow> container list" where
  "collectInitContainers r containers [] = containers"
| "collectInitContainers r containers (c # rest) =
     (if map_of (InitContainers r) (Id c) \<noteq> None
        then collectInitContainers r (containers @ [c]) rest
      else collectInitContainers r containers rest)"

definition GetInitContainers :: "pod \<Rightarrow> container list" where
  "GetInitContainers p =
     (case Resources p of
        None \<Rightarrow> []
      | Some r \<Rightarrow> collectInitContainers r [] (cacheContainers (podCache p)))"

text \<open>The loop of \<^verbatim>\<open>GetContainers\<close>; a container is skipped by \<^verbatim>\<open>continue\<close>.\<close>

fun collectContainers ::
  "PodResourceRequirements option \<Rightarrow> container list \<Rightarrow> container list \<Rightarrow> container list" where
  "collectContainers res containers [] = containers"
| "collectContainers res containers (c # rest) =
     (case res of
        Some r \<Rightarrow>
          if map_of (Containers r) (Id c) = None then collectContainers res containers rest
          else collectContainers res (containers @ [c]) rest
      | None \<Rightarrow> collectContainers res (containers @ [c]) rest)"

definition GetContainers :: "pod \<Rightarrow> container list" where
  "GetContainers p = collectContainers (Resources p) [] (cacheContainers (podCache p))"

definition GetPodResourceRequirements :: "pod \<Rightarrow> PodResourceRequirements" where
  "GetPodResourceRequirements p =
     (case Resources p of None \<Rightarrow> zeroPodResourceRequirements | Some r \<Rightarrow> r)"

section \<open>The notions of the specification\<close>

text \<open>
  The definitions of this section follow the wording of the specification, not the code:
  the code is compared with them below.

  The strictly positive quantities a resource list declares for one resource kind, and
  those of all containers of a pod, for the limits or the requests.
\<close>

definition posQuantities :: "ResourceName \<Rightarrow> ResourceList \<Rightarrow> Quantity list" where
  "posQuantities name rl = map snd (filter (\<lambda>(n, q). n = name \<and> 0 < q) rl)"

definition podQuantities ::
  "(ResourceRequirements \<Rightarrow> ResourceList) \<Rightarrow> ResourceName
     \<Rightarrow> (string \<times> ResourceRequirements) list \<Rightarrow> Quantity list" where
  "podQuantities field name cs = concat (map (\<lambda>(cid, r). posQuantities name (field r)) cs)"

text \<open>
  The aggregated mapping as the specification describes it: for each of cpu and memory
  that has a strictly positive quantity somewhere, the sum of these quantities.
\<close>

definition specAggregate ::
  "(ResourceRequirements \<Rightarrow> ResourceList) \<Rightarrow> (string \<times> ResourceRequirements) list
     \<Rightarrow> ResourceList" where
  "specAggregate field cs =
     map (\<lambda>name. (name, sum_list (podQuantities field name cs)))
       (filter (\<lambda>name. podQuantities field name cs \<noteq> []) [ResourceCPU, ResourceMemory])"

text \<open>
  A container has a strictly positive limit for a resource kind; it qualifies when it
  has one for cpu and one for memory.
\<close>

definition hasPositive :: "ResourceName \<Rightarrow> ResourceList \<Rightarrow> bool" where
  "hasPositive name rl \<longleftrightarrow> list_ex (\<lambda>(n, q). n = name \<and> 0 < q) rl"

definition containerQualifies :: "ResourceRequirements \<Rightarrow> bool" where
  "containerQualifies r \<longleftrightarrow>
     hasPositive ResourceCPU (Limits r) \<and> hasPositive ResourceMemory (Limits r)"

text \<open>
  The class by the steps 5 to 8 of the specification's algorithm.
\<close>

definition specQOS :: "(string \<times> ResourceRequirements) list \<Rightarrow> PodQOSClass" where
  "specQOS cs =
     (if specAggregate Requests cs = [] \<and> specAggregate Limits cs = [] then PodQOSBestEffort
      else if list_all (\<lambda>(cid, r). containerQualifies r) cs \<and>
              list_all (\<lambda>(name, req). map_of (specAggregate Limits cs) name = Some req)
                (specAggregate Requests cs) \<and>
              length (specAggregate Requests cs) = length (specAggregate Limits cs)
        then PodQOSGuaranteed
      else PodQOSBurstable)"

text \<open>
  For the loop invariants: the entry of a resource list read as a number, 0 when there
  is none.
\<close>

definition entryOr0 :: "ResourceList \<Rightarrow> ResourceName \<Rightarrow> Quantity" where
  "entryOr0 acc name = (case map_of acc name of None \<Rightarrow> 0 | Some v \<Rightarrow> v)"

text \<open>
  The string encodings of the round trip: \<^verbatim>\<open>strconv.FormatBool\<close>,
  \<^verbatim>\<open>strconv.FormatUint\<close> and \<^verbatim>\<open>strconv.FormatInt\<close> in a base, and the same
  with the prefix \<^verbatim>\<open>0x\<close> for base 16.
\<close>

definition digitChar :: "nat \<Rightarrow> char" where
  "digitChar d = ''0123456789abcdefghijklmnopqrstuvwxyz'' ! d"

function formatUint :: "nat \<Rightarrow> nat \<Rightarrow> string" where
  "formatUint base n =
     (if base < 2 \<or> n < base then [digitChar n]
      else formatUint base (n div base) @ [digitChar (n mod base)])"
  by pat_completeness auto
termination
  by (relation "measure snd") auto

definition formatInt :: "nat \<Rightarrow> int \<Rightarrow> string" where
  "formatInt base i =
     (if i < 0 then CHR ''-'' # formatUint base (nat (- i)) else formatUint base (nat i))"

definition FormatBool :: "bool \<Rightarrow> string" where
  "FormatBool b = (if b then ''true'' else ''false'')"

definition hexUint :: "nat \<Rightarrow> string" where
  "hexUint n = ''0x'' @ formatUint 16 n"

definition hexInt :: "int \<Rightarrow> string" where
  "hexInt i = (if i < 0 then CHR ''-'' # hexUint (nat (- i)) else hexUint (nat i))"

text \<open>
  The encodings of the value a target holds, by the target's type: a string is its own
  encoding, an integer has a decimal and a hexadecimal one. \<open>sameType\<close> says that two
  targets have the same declared type.
\<close>

fun encodings :: "'a objPtr \<Rightarrow> string list" where
  "encodings (PString v) = [v]"
| "encodings (PBool b) = [FormatBool b]"
| "encodings (PInt i) = [formatInt 10 (sint i), hexInt (sint i)]"
| "encodings (PUint u) = [formatUint 10 (unat u), hexUint (unat u)]"
| "encodings (PInt64 i) = [formatInt 10 (sint i), hexInt (sint i)]"
| "encodings (PUint64 u) = [formatUint 10 (unat u), hexUint (unat u)]"
| "encodings (POther x) = []"

fun sameType :: "'a objPtr \<Rightarrow> 'a objPtr \<Rightarrow> bool" where
  "sameType (PString _) (PString _) = True"
| "sameType (PBool _) (PBool _) = True"
| "sameType (PInt _) (PInt _) = True"
| "sameType (PUint _) (PUint _) = True"
| "sameType (PInt64 _) (PInt64 _) = True"
| "sameType (PUint64 _) (PUint64 _) = True"
| "sameType (POther _) (POther _) = True"
| "sameType _ _ = False"

section \<open>Example values\<close>

text \<open>
  Pods, messages and decoders on which the theorems are instantiated.
  \<open>noUnmarshal\<close> is a decoder that fails on every input and leaves its target as it
  was. \<open>typeErrorUnmarshal\<close> does on \<open>typeErrorAnnotation\<close> what \<^verbatim>\<open>json.Unmarshal\<close>
  is documented to do on a value of the wrong type: it skips the field
  \<^verbatim>\<open>initContainers\<close>, whose value is a number, completes the rest, here the entry of
  the container \<^verbatim>\<open>c0\<close>, and returns the type error.
\<close>

definition emptyCache :: cache where
  "emptyCache = \<lparr>cacheContainers = [], cacheLog = []\<rparr>"

definition podWith :: "PodResourceRequirements option \<Rightarrow> pod" where
  "podWith res = \<lparr>podCache = emptyCache, podId = ''pod0'', Uid = [], Name = ''web'',
     Namespace = ''default'', State = 0, QOSClass = [], Labels = [], Annotations = [],
     CgroupParent = [], Resources = res\<rparr>"

definition guaranteedResources :: PodResourceRequirements where
  "guaranteedResources = \<lparr>InitContainers = [],
     Containers = [(''c0'', \<lparr>Limits = [(''cpu'', 100), (''memory'', 64)],
                              Requests = [(''cpu'', 100), (''memory'', 64)]\<rparr>)]\<rparr>"

definition zeroResources :: PodResourceRequirements where
  "zeroResources = \<lparr>InitContainers = [],
     Containers = [(''c0'', \<lparr>Limits = [(''cpu'', 0), (''memory'', 0)],
                              Requests = [(''cpu'', 0), (''hugepages-2Mi'', 0)]\<rparr>)]\<rparr>"

definition annotatedPod :: pod where
  "annotatedPod = (podWith None)\<lparr>Annotations :=
     [(''flag'', ''true''), (''offset'', ''-0x1f''), (''count'', ''0''), (''name'', ''web'')]\<rparr>"

definition noUnmarshal ::
  "string \<Rightarrow> PodResourceRequirements \<Rightarrow> error option \<times> PodResourceRequirements" where
  "noUnmarshal s r = (Some (DecodeError ''unexpected end of JSON input''), r)"

definition typeErrorAnnotation :: string where
  "typeErrorAnnotation =
     ''{'' @ [CHR 0x22] @ ''containers'' @ [CHR 0x22] @ '':{'' @ [CHR 0x22] @ ''c0'' @ [CHR 0x22] @
     '':{}},'' @ [CHR 0x22] @ ''initContainers'' @ [CHR 0x22] @ '':7}''"

definition typeErrorUnmarshal ::
  "string \<Rightarrow> PodResourceRequirements \<Rightarrow> error option \<times> PodResourceRequirements" where
  "typeErrorUnmarshal s r =
     (if s = typeErrorAnnotation
        then (Some (DecodeError ''json: cannot unmarshal number into Go struct field''),
              r\<lparr>Containers := [(''c0'', \<lparr>Limits = [], Requests = []\<rparr>)]\<rparr>)
      else (Some (DecodeError ''unexpected end of JSON input''), r))"

definition c1 :: container where "c1 = \<lparr>Id = ''c1'', PodId = ''podA''\<rparr>"

definition c2 :: container where "c2 = \<lparr>Id = ''c2'', PodId = ''podB''\<rparr>"

definition podA :: pod where
  "podA = \<lparr>podCache = \<lparr>cacheContainers = [c1, c2], cacheLog = []\<rparr>, podId = ''podA'',
     Uid = [], Name = [], Namespace = [], State = 0, QOSClass = [], Labels = [],
     Annotations = [], CgroupParent = [], Resources = None\<rparr>"

definition runRequest :: RunPodSandboxRequest where
  "runRequest = \<lparr>reqConfig = Some \<lparr>cfgMetadata = Some \<lparr>mdName = ''web'', mdNamespace = ''default''\<rparr>,
     cfgLabels = [(''io.kubernetes.pod.uid'', ''u-1'')], cfgAnnotations = [],
     cfgLinux = Some \<lparr>lnxCgroupParent = ''/kubepods''\<rparr>\<rparr>\<rparr>"

definition listEntry :: PodSandbox where
  "listEntry = \<lparr>sbMetadata = Some \<lparr>mdName = ''web'', mdNamespace = ''default''\<rparr>,
     sbState = 1, sbLabels = [],
     sbAnnotations = [(''intel.com/resources'', typeErrorAnnotation)]\<rparr>"

section \<open>The loops of GetPodQOS compute the aggregates of the specification\<close>

lemma map_of_addQuantity:
  "map_of (addQuantity name q acc) n =
     (if n = name then Some (q + entryOr0 acc name) else map_of acc n)"
  by (simp add: addQuantity_def entryOr0_def update_conv' split: option.splits)

lemma distinct_addQuantity:
  "distinct (map fst acc) \<Longrightarrow> distinct (map fst (addQuantity name q acc))"
  by (simp add: addQuantity_def distinct_update split: option.splits)

lemma posQuantities_Cons:
  "posQuantities name ((n, q) # rl) =
     (if n = name \<and> 0 < q then q # posQuantities name rl else posQuantities name rl)"
  by (simp add: posQuantities_def)

lemma posQuantities_Nil: "posQuantities name [] = []"
  by (simp add: posQuantities_def)

lemma map_of_processRequests:
  "map_of (processRequests acc rl) name =
     (if isSupportedQoSComputeResource name \<and> posQuantities name rl \<noteq> []
      then Some (sum_list (posQuantities name rl) + entryOr0 acc name)
      else map_of acc name)"
proof (induction acc rl rule: processRequests.induct)
  case (1 requests)
  then show ?case by (simp add: posQuantities_Nil)
next
  case (2 requests n quantity rest)
  then show ?case
    by (auto simp: posQuantities_Cons map_of_addQuantity zeroQuantity_def entryOr0_def)
qed

lemma distinct_processRequests:
  "distinct (map fst acc) \<Longrightarrow> distinct (map fst (processRequests acc rl))"
  by (induction acc rl rule: processRequests.induct) (auto simp: distinct_addQuantity)

lemma processLimits_fst: "fst (processLimits (acc, found) rl) = processRequests acc rl"
  by (induction "(acc, found)" rl arbitrary: acc found rule: processLimits.induct) auto

lemma processLimits_snd:
  "snd (processLimits (acc, found) rl) =
     found \<union> {name. isSupportedQoSComputeResource name \<and> posQuantities name rl \<noteq> []}"
  by (induction "(acc, found)" rl arbitrary: acc found rule: processLimits.induct)
     (auto simp: posQuantities_Cons posQuantities_Nil zeroQuantity_def split: if_splits)

lemma podQuantities_Cons:
  "podQuantities field name ((cid, r) # cs) =
     posQuantities name (field r) @ podQuantities field name cs"
  by (simp add: podQuantities_def)

lemma podQuantities_Nil: "podQuantities field name [] = []"
  by (simp add: podQuantities_def)

lemma hasPositive_iff: "hasPositive name rl \<longleftrightarrow> posQuantities name rl \<noteq> []"
  by (auto simp: hasPositive_def posQuantities_def list_ex_iff filter_empty_conv)

lemma aggregateContainers_requests:
  "map_of (fst (aggregateContainers (requests, limits, g) cs)) name =
     (if isSupportedQoSComputeResource name \<and> podQuantities Requests name cs \<noteq> []
      then Some (sum_list (podQuantities Requests name cs) + entryOr0 requests name)
      else map_of requests name)"
proof (induction cs arbitrary: requests limits g)
  case Nil
  then show ?case by (simp add: podQuantities_Nil)
next
  case (Cons c cs)
  obtain cid r where c: "c = (cid, r)" by (cases c)
  show ?case
    by (auto simp add: c Let_def split_beta Cons.IH podQuantities_Cons map_of_processRequests
        entryOr0_def)
qed

lemma aggregateContainers_limits:
  "map_of (fst (snd (aggregateContainers (requests, limits, g) cs))) name =
     (if isSupportedQoSComputeResource name \<and> podQuantities Limits name cs \<noteq> []
      then Some (sum_list (podQuantities Limits name cs) + entryOr0 limits name)
      else map_of limits name)"
proof (induction cs arbitrary: requests limits g)
  case Nil
  then show ?case by (simp add: podQuantities_Nil)
next
  case (Cons c cs)
  obtain cid r where c: "c = (cid, r)" by (cases c)
  have f: "fst (processLimits (limits, {}) (Limits r)) = processRequests limits (Limits r)"
    by (rule processLimits_fst)
  show ?case
    by (auto simp add: c Let_def split_beta Cons.IH podQuantities_Cons f map_of_processRequests
        entryOr0_def)
qed

lemma aggregateContainers_isGuaranteed:
  "snd (snd (aggregateContainers (requests, limits, g) cs)) \<longleftrightarrow>
     g \<and> (\<forall>(cid, r) \<in> set cs. containerQualifies r)"
proof (induction cs arbitrary: requests limits g)
  case Nil
  then show ?case by simp
next
  case (Cons c cs)
  obtain cid r where c: "c = (cid, r)" by (cases c)
  show ?case
    by (auto simp add: c Let_def split_beta Cons.IH processLimits_snd containerQualifies_def
        hasPositive_iff isSupportedQoSComputeResource_def)
qed

lemma aggregateContainers_distinct:
  "distinct (map fst requests) \<Longrightarrow> distinct (map fst limits) \<Longrightarrow>
   distinct (map fst (fst (aggregateContainers (requests, limits, g) cs))) \<and>
   distinct (map fst (fst (snd (aggregateContainers (requests, limits, g) cs))))"
proof (induction cs arbitrary: requests limits g)
  case Nil
  then show ?case by simp
next
  case (Cons c cs)
  obtain cid r where c: "c = (cid, r)" by (cases c)
  have f: "fst (processLimits (limits, {}) (Limits r)) = processRequests limits (Limits r)"
    by (rule processLimits_fst)
  show ?case
    using Cons.prems
    by (simp add: c Let_def split_beta f Cons.IH distinct_processRequests)
qed

lemma map_of_specAggregate:
  "map_of (specAggregate field cs) name =
     (if isSupportedQoSComputeResource name \<and> podQuantities field name cs \<noteq> []
      then Some (sum_list (podQuantities field name cs)) else None)"
  by (auto simp: specAggregate_def isSupportedQoSComputeResource_def)

lemma distinct_specAggregate: "distinct (map fst (specAggregate field cs))"
  by (simp add: specAggregate_def ResourceCPU_def ResourceMemory_def)

lemma same_entries:
  assumes "distinct (map fst xs)" "distinct (map fst ys)" "map_of xs = map_of ys"
  shows "set xs = set ys" "length xs = length ys"
proof -
  show s: "set xs = set ys"
    using assms by (simp add: map_of_inject_set)
  have "distinct xs" "distinct ys"
    using assms(1,2) by (simp_all add: distinct_map)
  then have "length xs = card (set xs)" "length ys = card (set ys)"
    by (simp_all add: distinct_card)
  with s show "length xs = length ys" by simp
qed

lemma aggregate_requests_spec:
  "set (fst (aggregateContainers ([], [], True) cs)) = set (specAggregate Requests cs)"
  "length (fst (aggregateContainers ([], [], True) cs)) = length (specAggregate Requests cs)"
  "distinct (map fst (fst (aggregateContainers ([], [], True) cs)))"
proof -
  let ?xs = "fst (aggregateContainers ([], [], True) cs)"
  show d: "distinct (map fst ?xs)"
    using aggregateContainers_distinct [of "[]" "[]" True cs] by simp
  have m: "map_of ?xs = map_of (specAggregate Requests cs)"
    by (rule ext) (simp add: aggregateContainers_requests map_of_specAggregate entryOr0_def)
  show "set ?xs = set (specAggregate Requests cs)"
    by (rule same_entries(1) [OF d distinct_specAggregate m])
  show "length ?xs = length (specAggregate Requests cs)"
    by (rule same_entries(2) [OF d distinct_specAggregate m])
qed

lemma aggregate_limits_spec:
  "set (fst (snd (aggregateContainers ([], [], True) cs))) = set (specAggregate Limits cs)"
  "length (fst (snd (aggregateContainers ([], [], True) cs))) = length (specAggregate Limits cs)"
  "distinct (map fst (fst (snd (aggregateContainers ([], [], True) cs))))"
proof -
  let ?xs = "fst (snd (aggregateContainers ([], [], True) cs))"
  show d: "distinct (map fst ?xs)"
    using aggregateContainers_distinct [of "[]" "[]" True cs] by simp
  have m: "map_of ?xs = map_of (specAggregate Limits cs)"
    by (rule ext) (simp add: aggregateContainers_limits map_of_specAggregate entryOr0_def)
  show "set ?xs = set (specAggregate Limits cs)"
    by (rule same_entries(1) [OF d distinct_specAggregate m])
  show "length ?xs = length (specAggregate Limits cs)"
    by (rule same_entries(2) [OF d distinct_specAggregate m])
qed

lemma requestsMatchLimits_iff:
  "requestsMatchLimits limits requests \<longleftrightarrow>
     (\<forall>(name, req) \<in> set requests. map_of limits name = Some req)"
  by (induction limits requests rule: requestsMatchLimits.induct)
     (auto split: option.splits)

lemma map_of_cong_set:
  assumes "distinct (map fst xs)" "distinct (map fst ys)" "set xs = set ys"
  shows "map_of xs = map_of ys"
  using assms by (simp add: map_of_inject_set)

lemma podQuantities_empty_iff:
  "podQuantities field name cs = [] \<longleftrightarrow>
      (\<forall>(cid, r) \<in> set cs. \<forall>(n, q) \<in> set (field r). n = name \<longrightarrow> \<not> 0 < q)"
  by (simp add: podQuantities_def posQuantities_def filter_empty_conv split_beta)

lemma specAggregate_empty_iff:
  "specAggregate field cs = [] \<longleftrightarrow>
     (\<forall>(cid, r) \<in> set cs. \<forall>(name, q) \<in> set (field r).
        isSupportedQoSComputeResource name \<longrightarrow> \<not> 0 < q)"
proof -
  have "specAggregate field cs = [] \<longleftrightarrow>
      podQuantities field ResourceCPU cs = [] \<and> podQuantities field ResourceMemory cs = []"
    by (simp add: specAggregate_def)
  also have "\<dots> \<longleftrightarrow> (\<forall>(cid, r) \<in> set cs. \<forall>(name, q) \<in> set (field r).
        isSupportedQoSComputeResource name \<longrightarrow> \<not> 0 < q)"
    unfolding podQuantities_empty_iff isSupportedQoSComputeResource_def
    by (simp add: split_beta) blast
  finally show ?thesis .
qed

lemma sum_list_pos:
  "xs \<noteq> [] \<Longrightarrow> \<forall>x \<in> set xs. 0 < x \<Longrightarrow> 0 < sum_list xs" for xs :: "int list"
  by (induction xs) (auto intro: add_pos_nonneg sum_list_nonneg less_imp_le)

lemma specAggregate_entries:
  assumes "(name, q) \<in> set (specAggregate field cs)"
  shows "isSupportedQoSComputeResource name \<and> 0 < q"
proof -
  have "map_of (specAggregate field cs) name = Some q"
    using assms distinct_specAggregate by (rule map_of_is_SomeI [rotated])
  then have s: "isSupportedQoSComputeResource name" and n: "podQuantities field name cs \<noteq> []"
    and q: "q = sum_list (podQuantities field name cs)"
    by (auto simp: map_of_specAggregate split: if_splits)
  have "\<forall>x \<in> set (podQuantities field name cs). 0 < x"
    by (auto simp: podQuantities_def posQuantities_def)
  with n have "0 < q" unfolding q by (rule sum_list_pos)
  with s show ?thesis by simp
qed

lemma class_names_differ:
  "PodQOSGuaranteed \<noteq> PodQOSBurstable" "PodQOSGuaranteed \<noteq> PodQOSBestEffort"
  "PodQOSBurstable \<noteq> PodQOSBestEffort" "PodQOSGuaranteed \<noteq> []" "PodQOSBurstable \<noteq> []"
  "PodQOSBestEffort \<noteq> []"
  by (simp_all add: PodQOSGuaranteed_def PodQOSBurstable_def PodQOSBestEffort_def)

lemma specQOS_nonempty: "specQOS cs \<noteq> []"
  by (simp add: specQOS_def class_names_differ)

text \<open>
  On a pod whose class is not yet stored and whose \<^verbatim>\<open>Resources\<close> is set,
  \<^verbatim>\<open>GetPodQOS\<close> returns the class of the specification and stores it.
\<close>

lemma GetPodQOS_computes:
  assumes "QOSClass p = []" and "Resources p = Some r"
  shows "GetPodQOS p = Inr (specQOS (Containers r), p\<lparr>QOSClass := specQOS (Containers r)\<rparr>)"
proof -
  let ?cs = "Containers r"
  obtain requests limits g where agg: "aggregateContainers ([], [], True) ?cs = (requests, limits, g)"
    by (cases "aggregateContainers ([], [], True) ?cs") auto
  have rs: "set requests = set (specAggregate Requests ?cs)"
    and rl: "length requests = length (specAggregate Requests ?cs)"
    using aggregate_requests_spec(1,2) [of ?cs] by (simp_all add: agg)
  have ls: "set limits = set (specAggregate Limits ?cs)"
    and ll: "length limits = length (specAggregate Limits ?cs)"
    and ld: "distinct (map fst limits)"
    using aggregate_limits_spec [of ?cs] by (simp_all add: agg)
  have lm: "map_of limits = map_of (specAggregate Limits ?cs)"
    by (rule map_of_cong_set [OF ld distinct_specAggregate ls])
  have g: "g \<longleftrightarrow> list_all (\<lambda>(cid, r). containerQualifies r) ?cs"
    using aggregateContainers_isGuaranteed [of "[]" "[]" True ?cs]
    by (simp add: agg list_all_iff)
  have m: "requestsMatchLimits limits requests \<longleftrightarrow>
      list_all (\<lambda>(name, req). map_of (specAggregate Limits ?cs) name = Some req)
        (specAggregate Requests ?cs)"
    by (simp add: requestsMatchLimits_iff rs lm list_all_iff)
  have e: "requests = [] \<longleftrightarrow> specAggregate Requests ?cs = []"
      "limits = [] \<longleftrightarrow> specAggregate Limits ?cs = []"
    using rl ll by auto
  show ?thesis
    using assms by (auto simp add: GetPodQOS_def agg specQOS_def g m e rl ll)
qed

lemmas example_defs = podWith_def guaranteedResources_def zeroResources_def emptyCache_def
  specAggregate_def podQuantities_def posQuantities_def ResourceCPU_def ResourceMemory_def
  hasPositive_def PodQOSGuaranteed_def PodQOSBurstable_def PodQOSBestEffort_def

section \<open>Parsing inverts formatting\<close>

lemma upt_36:
  "[0..<36] = [0, 1, 2, 3, 4, 5, 6, 7, 8, 9, 10, 11, 12, 13, 14, 15, 16, 17, 18, 19, 20, 21, 22,
     23, 24, 25, 26, 27, 28, 29, 30, 31, 32, 33, 34, 35 :: nat]"
  by (simp add: upt_rec)

lemma digit_table:
  "list_all (\<lambda>d. digitValue (digitChar d) = Some d \<and> digitChar d \<noteq> CHR ''_'' \<and>
      digitChar d \<noteq> CHR ''+'' \<and> digitChar d \<noteq> CHR ''-'' \<and>
      (digitChar d = CHR ''0'' \<longleftrightarrow> d = 0)) [0..<36]"
  unfolding upt_36
  by (simp add: digitChar_def digitValue_def byte_def lower_def)

lemma digitChar_props:
  assumes "d < 36"
  shows "digitValue (digitChar d) = Some d" and "digitChar d \<noteq> CHR ''_''"
    and "digitChar d \<noteq> CHR ''+''" and "digitChar d \<noteq> CHR ''-''"
    and "digitChar d = CHR ''0'' \<longleftrightarrow> d = 0"
proof -
  have "d \<in> set [0..<36]" using assms by simp
  with digit_table show "digitValue (digitChar d) = Some d" and "digitChar d \<noteq> CHR ''_''"
    and "digitChar d \<noteq> CHR ''+''" and "digitChar d \<noteq> CHR ''-''"
    and "digitChar d = CHR ''0'' \<longleftrightarrow> d = 0"
    unfolding list_all_iff by blast+
qed

lemma scanDigits_snoc:
  "scanDigits b0 base cutoff maxVal us n (xs @ [c]) =
     (case scanDigits b0 base cutoff maxVal us n xs of
        ScanDone m us' \<Rightarrow> scanDigits b0 base cutoff maxVal us' m [c]
      | ScanSyntax \<Rightarrow> ScanSyntax
      | ScanRange \<Rightarrow> ScanRange)"
  by (induction xs arbitrary: us n) (auto simp: Let_def split: option.splits)

lemma scanDigits_digit:
  assumes "d < base" "base \<le> 36" "n < cutoff" "n * base + d \<le> maxVal" "maxVal < 2 ^ 64"
  shows "scanDigits b0 base cutoff maxVal us n [digitChar d] = ScanDone (n * base + d) us"
proof -
  have d: "d < 36" using assms by simp
  have lt: "n * base + d < 2 ^ 64" using assms by simp
  then have lt': "n * base < 2 ^ 64" by simp
  show ?thesis
    using assms lt lt' by (simp add: digitChar_props [OF d] Let_def)
qed

lemma formatUint_simps':
  "n < base \<Longrightarrow> formatUint base n = [digitChar n]"
  "2 \<le> base \<Longrightarrow> base \<le> n \<Longrightarrow>
     formatUint base n = formatUint base (n div base) @ [digitChar (n mod base)]"
  by (simp_all)

declare formatUint.simps [simp del]

lemma scanDigits_formatUint:
  "2 \<le> base \<Longrightarrow> base \<le> 36 \<Longrightarrow> maxVal < 2 ^ 64 \<Longrightarrow> v \<le> maxVal \<Longrightarrow>
     scanDigits b0 base (maxUint64 div base + 1) maxVal False 0 (formatUint base v)
       = ScanDone v False"
proof (induction base v rule: formatUint.induct)
  case (1 base n)
  note b = \<open>2 \<le> base\<close> \<open>base \<le> 36\<close> and mv = \<open>maxVal < 2 ^ 64\<close> and n = \<open>n \<le> maxVal\<close>
  show ?case
  proof (cases "n < base")
    case True
    have "scanDigits b0 base (maxUint64 div base + 1) maxVal False 0 [digitChar n]
            = ScanDone (0 * base + n) False"
      using True b mv n by (intro scanDigits_digit) simp_all
    then show ?thesis using True by (simp add: formatUint_simps')
  next
    case False
    then have ge: "base \<le> n" by simp
    have b2: "\<not> (base < 2 \<or> n < base)" using b ge by simp
    have "n div base \<le> n" by simp
    then have le: "n div base \<le> maxVal" using n by (rule order_trans)
    have ih: "scanDigits b0 base (maxUint64 div base + 1) maxVal False 0
          (formatUint base (n div base)) = ScanDone (n div base) False"
      using "1.IH" [OF b2 b mv le] .
    have "n \<le> maxUint64" using n mv by (simp add: maxUint64_def)
    then have "n div base \<le> maxUint64 div base" by (rule div_le_mono)
    then have c: "n div base < maxUint64 div base + 1" by simp
    have m: "n mod base < base" using b by simp
    have e: "n div base * base + n mod base = n" by simp
    have step: "scanDigits b0 base (maxUint64 div base + 1) maxVal False (n div base)
          [digitChar (n mod base)] = ScanDone (n div base * base + n mod base) False"
      using m b c n mv by (intro scanDigits_digit) (simp_all only: e)
    have f: "formatUint base n = formatUint base (n div base) @ [digitChar (n mod base)]"
      using b ge by (simp add: formatUint_simps')
    show ?thesis
      by (simp only: f scanDigits_snoc ih scan.case step e)
  qed
qed

lemma formatUint_nonempty: "formatUint base v \<noteq> []"
  by (subst formatUint.simps) simp

lemma formatUint_hd:
  "2 \<le> base \<Longrightarrow> base \<le> 36 \<Longrightarrow>
     \<exists>d rest. formatUint base v = digitChar d # rest \<and> d < 36 \<and> (d = 0 \<longrightarrow> v = 0)"
proof (induction base v rule: formatUint.induct)
  case (1 base n)
  note b = \<open>2 \<le> base\<close> \<open>base \<le> 36\<close>
  show ?case
  proof (cases "n < base")
    case True
    then have "formatUint base n = digitChar n # [] \<and> n < 36 \<and> (n = 0 \<longrightarrow> n = 0)"
      using b by (simp add: formatUint_simps')
    then show ?thesis by blast
  next
    case False
    then have ge: "base \<le> n" by simp
    have b2: "\<not> (base < 2 \<or> n < base)" using b ge by simp
    obtain d rest where h: "formatUint base (n div base) = digitChar d # rest" "d < 36"
        "d = 0 \<longrightarrow> n div base = 0"
      using "1.IH" [OF b2 b] by blast
    have "n div base \<noteq> 0" using ge b by (simp add: div_eq_0_iff)
    with h have d0: "d \<noteq> 0" by blast
    have "formatUint base n = digitChar d # (rest @ [digitChar (n mod base)])"
      using b ge h by (simp add: formatUint_simps')
    with d0 h(2) show ?thesis by blast
  qed
qed

lemma ParseUint_base0:
  assumes "s \<noteq> []" and "bitSize = 0 \<or> bitSize = 64" and "detectBase s = (b, s')"
    and "scanDigits True b (maxUint64 div b + 1) (2 ^ 64 - 1) False 0 s' = ScanDone v False"
  shows "ParseUint s 0 bitSize = (v, None)"
  using assms by (auto simp add: ParseUint_def IntSize_def Let_def simp del: scanDigits.simps)

lemma ParseUint_formatUint_10:
  assumes "v < 2 ^ 64" and "bitSize = 0 \<or> bitSize = 64"
  shows "ParseUint (formatUint 10 v) 0 bitSize = (v, None)"
proof (cases "v = 0")
  case True
  have "formatUint 10 0 = ''0''" by (simp add: formatUint_simps' digitChar_def)
  then show ?thesis
    using assms(2) True by (auto simp add: ParseUint_def detectBase_def IntSize_def)
next
  case False
  obtain d rest where h: "formatUint 10 v = digitChar d # rest" "d < 36" "d = 0 \<longrightarrow> v = 0"
    using formatUint_hd [of 10 v] by auto
  then have "d \<noteq> 0" using False by blast
  then have "digitChar d \<noteq> CHR ''0''" using digitChar_props(5) [OF h(2)] by simp
  then have db: "detectBase (formatUint 10 v) = (10, formatUint 10 v)"
    by (simp add: detectBase_def h(1))
  have sc: "scanDigits True 10 (maxUint64 div 10 + 1) (2 ^ 64 - 1) False 0 (formatUint 10 v)
      = ScanDone v False"
    using assms(1) by (intro scanDigits_formatUint) simp_all
  show ?thesis
    by (rule ParseUint_base0 [OF formatUint_nonempty assms(2) db sc])
qed

lemma ParseUint_formatUint_16:
  assumes "v < 2 ^ 64" and "bitSize = 0 \<or> bitSize = 64"
  shows "ParseUint (''0x'' @ formatUint 16 v) 0 bitSize = (v, None)"
proof -
  obtain d rest where h: "formatUint 16 v = digitChar d # rest"
    using formatUint_hd [of 16 v] by auto
  have db: "detectBase (''0x'' @ formatUint 16 v) = (16, formatUint 16 v)"
    by (simp add: detectBase_def h lower_def byte_def)
  have sc: "scanDigits True 16 (maxUint64 div 16 + 1) (2 ^ 64 - 1) False 0 (formatUint 16 v)
      = ScanDone v False"
    using assms(1) by (intro scanDigits_formatUint) simp_all
  have ne: "''0x'' @ formatUint 16 v \<noteq> []" by simp
  show ?thesis
    by (rule ParseUint_base0 [OF ne assms(2) db sc])
qed

lemma ParseInt_unsigned:
  assumes "ParseUint u 0 bitSize = (v, None)" and "u \<noteq> []"
    and "u ! 0 \<noteq> CHR ''+''" and "u ! 0 \<noteq> CHR ''-''"
    and "bitSize = 0 \<or> bitSize = 64" and "v < 2 ^ 63"
  shows "ParseInt u 0 bitSize = (int v, None)"
proof -
  have "toInt64 v = int v"
    using assms(6) by (simp add: toInt64_def)
  then show ?thesis
    using assms by (auto simp add: ParseInt_def IntSize_def Let_def)
qed

lemma ParseInt_negative:
  assumes "ParseUint u 0 bitSize = (v, None)"
    and "bitSize = 0 \<or> bitSize = 64" and "v \<le> 2 ^ 63"
  shows "ParseInt (CHR ''-'' # u) 0 bitSize = (- int v, None)"
proof -
  have "negInt64 (toInt64 v) = - int v"
  proof (cases "v = 2 ^ 63")
    case True
    then show ?thesis by (simp add: toInt64_def negInt64_def)
  next
    case False
    then have "v < 2 ^ 63" using assms(3) by simp
    then have "toInt64 v = int v" by (simp add: toInt64_def)
    moreover have "(- int v + 2 ^ 63) mod 2 ^ 64 = - int v + 2 ^ 63"
      using \<open>v < 2 ^ 63\<close> by (simp add: mod_pos_pos_trivial)
    ultimately show ?thesis by (simp add: negInt64_def)
  qed
  then show ?thesis
    using assms by (auto simp add: ParseInt_def IntSize_def Let_def)
qed

lemma ParseInt_formatInt_10:
  assumes "- (2 ^ 63) \<le> i" and "i < 2 ^ 63" and "bitSize = 0 \<or> bitSize = 64"
  shows "ParseInt (formatInt 10 i) 0 bitSize = (i, None)"
proof (cases "i < 0")
  case True
  have v: "nat (- i) \<le> 2 ^ 63" "nat (- i) < 2 ^ 64" using assms(1) True by simp_all
  have "ParseInt (CHR ''-'' # formatUint 10 (nat (- i))) 0 bitSize = (- int (nat (- i)), None)"
    by (rule ParseInt_negative [OF ParseUint_formatUint_10 [OF v(2) assms(3)] assms(3) v(1)])
  then show ?thesis using True by (simp add: formatInt_def)
next
  case False
  have v: "nat i < 2 ^ 63" "nat i < 2 ^ 64" using assms(2) False by simp_all
  obtain d rest where h: "formatUint 10 (nat i) = digitChar d # rest" "d < 36"
    using formatUint_hd [of 10 "nat i"] by auto
  have "ParseInt (formatUint 10 (nat i)) 0 bitSize = (int (nat i), None)"
    using digitChar_props(3,4) [OF h(2)]
    by (intro ParseInt_unsigned ParseUint_formatUint_10 v assms(3)) (simp_all add: h(1))
  then show ?thesis using False by (simp add: formatInt_def)
qed

lemma ParseInt_hexInt:
  assumes "- (2 ^ 63) \<le> i" and "i < 2 ^ 63" and "bitSize = 0 \<or> bitSize = 64"
  shows "ParseInt (hexInt i) 0 bitSize = (i, None)"
proof (cases "i < 0")
  case True
  have v: "nat (- i) \<le> 2 ^ 63" "nat (- i) < 2 ^ 64" using assms(1) True by simp_all
  have "ParseInt (CHR ''-'' # (''0x'' @ formatUint 16 (nat (- i)))) 0 bitSize
      = (- int (nat (- i)), None)"
    by (rule ParseInt_negative [OF ParseUint_formatUint_16 [OF v(2) assms(3)] assms(3) v(1)])
  then show ?thesis using True by (simp add: hexInt_def hexUint_def)
next
  case False
  have v: "nat i < 2 ^ 63" "nat i < 2 ^ 64" using assms(2) False by simp_all
  have "ParseInt (''0x'' @ formatUint 16 (nat i)) 0 bitSize = (int (nat i), None)"
    by (intro ParseInt_unsigned ParseUint_formatUint_16 v assms(3)) simp_all
  then show ?thesis using False by (simp add: hexInt_def hexUint_def)
qed

lemma ParseBool_FormatBool: "ParseBool (FormatBool b) = (b, None)"
  by (simp add: ParseBool_def FormatBool_def)

lemma sint_range64: "- (2 ^ 63) \<le> sint (i :: 64 word)" "sint (i :: 64 word) < 2 ^ 63"
  using sint_ge [of i] sint_lt [of i] by simp_all

lemma unat_range64: "unat (u :: 64 word) < 2 ^ 64"
  using unsigned_less [of u, where 'a = nat] by simp

lemma ParseInt_encodings:
  assumes "s = formatInt 10 (sint (i :: 64 word)) \<or> s = hexInt (sint i)"
    and "bitSize = 0 \<or> bitSize = 64"
  shows "ParseInt s 0 bitSize = (sint i, None)"
  using assms ParseInt_formatInt_10 [OF sint_range64 assms(2), of i]
    ParseInt_hexInt [OF sint_range64 assms(2), of i] by auto

lemma ParseUint_encodings:
  assumes "s = formatUint 10 (unat (u :: 64 word)) \<or> s = hexUint (unat u)"
    and "bitSize = 0 \<or> bitSize = 64"
  shows "ParseUint s 0 bitSize = (unat u, None)"
  using assms ParseUint_formatUint_10 [OF unat_range64 assms(2), of u]
    ParseUint_formatUint_16 [OF unat_range64 assms(2), of u] by (auto simp: hexUint_def)

section \<open>Annotations, construction and containers\<close>

lemma GetAnnotationObject_absent:
  "map_of (Annotations p) key = None \<Longrightarrow>
     GetAnnotationObject unmarshal p key obj decode = ((False, None), obj, p)"
  by (simp add: GetAnnotationObject_def GetAnnotation_def)

lemma GetAnnotationObject_other:
  "map_of (Annotations p) key = Some v \<Longrightarrow>
     fst (snd (GetAnnotationObject unmarshal p key (POther x) None)) = POther (snd (unmarshal v x))"
  by (simp add: GetAnnotationObject_def GetAnnotation_def split_beta split: option.splits)

lemma GetAnnotationObject_frame:
  "Annotations (snd (snd (GetAnnotationObject unmarshal p key obj None))) = Annotations p"
  "Labels (snd (snd (GetAnnotationObject unmarshal p key obj None))) = Labels p"
  "State (snd (snd (GetAnnotationObject unmarshal p key obj None))) = State p"
  "cacheContainers (podCache (snd (snd (GetAnnotationObject unmarshal p key obj None))))
     = cacheContainers (podCache p)"
  by (simp_all add: GetAnnotationObject_def GetAnnotation_def split_beta cacheLogError_def
      split: option.splits)

lemma parseResourceAnnotations_Resources:
  "Resources (parseResourceAnnotations unmarshal p) =
     Some (case map_of (Annotations p) KeyResourceAnnotation of
             None \<Rightarrow> zeroPodResourceRequirements
           | Some v \<Rightarrow> snd (unmarshal v zeroPodResourceRequirements))"
proof (cases "map_of (Annotations p) KeyResourceAnnotation")
  case None
  then show ?thesis
    by (simp add: parseResourceAnnotations_def GetAnnotationObject_absent)
next
  case (Some v)
  let ?p1 = "p\<lparr>Resources := Some zeroPodResourceRequirements\<rparr>"
  have "fst (snd (GetAnnotationObject unmarshal ?p1 KeyResourceAnnotation
          (POther zeroPodResourceRequirements) None))
        = POther (snd (unmarshal v zeroPodResourceRequirements))"
    using Some by (intro GetAnnotationObject_other) simp
  then show ?thesis
    using Some by (simp add: parseResourceAnnotations_def split_beta Let_def)
qed

lemma parseResourceAnnotations_frame:
  "Annotations (parseResourceAnnotations unmarshal p) = Annotations p"
  "Labels (parseResourceAnnotations unmarshal p) = Labels p"
  "State (parseResourceAnnotations unmarshal p) = State p"
  "cacheContainers (podCache (parseResourceAnnotations unmarshal p)) = cacheContainers (podCache p)"
  using GetAnnotationObject_frame [of unmarshal "p\<lparr>Resources := Some zeroPodResourceRequirements\<rparr>"
      KeyResourceAnnotation "POther zeroPodResourceRequirements"]
  by (simp_all add: parseResourceAnnotations_def split_beta Let_def split: objPtr.splits)

lemma extractLabels_frame:
  "Resources (extractLabels p) = Resources p"
  "Annotations (extractLabels p) = Annotations p"
  "State (extractLabels p) = State p"
  "cacheContainers (podCache (extractLabels p)) = cacheContainers (podCache p)"
  by (simp_all add: extractLabels_def cacheLogWarn_def Let_def split_beta)

lemma collectContainers_None: "collectContainers None acc cs = acc @ cs"
  by (induction cs arbitrary: acc) simp_all

lemma collectContainers_Some:
  "collectContainers (Some r) acc cs =
     acc @ filter (\<lambda>c. map_of (Containers r) (Id c) \<noteq> None) cs"
  by (induction cs arbitrary: acc) simp_all

lemma collectInitContainers_filter:
  "collectInitContainers r acc cs =
     acc @ filter (\<lambda>c. map_of (InitContainers r) (Id c) \<noteq> None) cs"
  by (induction cs arbitrary: acc) simp_all

lemma built_pod:
  fixes unmarshal p0
  defines "p' \<equiv> extractLabels (parseResourceAnnotations unmarshal p0)"
  shows "Resources p' =
     Some (case map_of (Annotations p') KeyResourceAnnotation of
             None \<Rightarrow> zeroPodResourceRequirements
           | Some v \<Rightarrow> snd (unmarshal v zeroPodResourceRequirements))"
    and "State p' = State p0"
  by (simp_all add: p'_def extractLabels_frame parseResourceAnnotations_frame
      parseResourceAnnotations_Resources)

lemma built_from_message:
  assumes "fromRunRequest unmarshal p req = Inr p' \<or> fromListResponse unmarshal p sb = Inr p'"
  shows "\<exists>p0. p' = extractLabels (parseResourceAnnotations unmarshal p0)"
  using assms
  by (auto simp add: fromRunRequest_def fromListResponse_def split: option.splits)

lemma fromRunRequest_Annotations:
  "fromRunRequest unmarshal p req = Inr p' \<Longrightarrow> reqConfig req = Some cfg \<Longrightarrow>
     Annotations p' = cfgAnnotations cfg"
  by (auto simp add: fromRunRequest_def extractLabels_frame parseResourceAnnotations_frame
      split: option.splits)

lemma GetContainers_nil_resources:
  "Resources p = None \<Longrightarrow>
     GetInitContainers p = [] \<and> GetContainers p = cacheContainers (podCache p)"
  by (simp add: GetInitContainers_def GetContainers_def collectContainers_None)

section \<open>The claims\<close>

text \<open>
  Claim C1. On a pod whose class is not yet stored and whose aggregate of cpu and memory
  requests or limits is not empty, \<^verbatim>\<open>GetPodQOS\<close> returns and stores a class, and this
  class is Guaranteed exactly when every container of \<^verbatim>\<open>Resources.Containers\<close> has a
  strictly positive limit for cpu and one for memory, every resource kind of the
  aggregated requests has the same quantity in the aggregated limits, and the two
  aggregated mappings have the same number of resource kinds; otherwise the class is
  Burstable. The aggregates are those of the specification, which no loop order changes;
  one container without both limits makes the first condition false whatever the others
  declare.
\<close>

theorem GetPodQOS_guaranteed_iff:
  assumes "QOSClass p = []" and "Resources p = Some r"
    and "specAggregate Requests (Containers r) \<noteq> [] \<or> specAggregate Limits (Containers r) \<noteq> []"
  shows "\<exists>c. GetPodQOS p = Inr (c, p\<lparr>QOSClass := c\<rparr>) \<and>
     (c = PodQOSGuaranteed \<longleftrightarrow>
        (\<forall>(cid, resources) \<in> set (Containers r).
            hasPositive ResourceCPU (Limits resources) \<and>
            hasPositive ResourceMemory (Limits resources)) \<and>
        (\<forall>(name, req) \<in> set (specAggregate Requests (Containers r)).
            map_of (specAggregate Limits (Containers r)) name = Some req) \<and>
        length (specAggregate Requests (Containers r)) =
          length (specAggregate Limits (Containers r))) \<and>
     (c \<noteq> PodQOSGuaranteed \<longrightarrow> c = PodQOSBurstable)"
proof -
  let ?cs = "Containers r"
  let ?G = "(\<forall>(cid, resources) \<in> set ?cs.
            hasPositive ResourceCPU (Limits resources) \<and>
            hasPositive ResourceMemory (Limits resources)) \<and>
        (\<forall>(name, req) \<in> set (specAggregate Requests ?cs).
            map_of (specAggregate Limits ?cs) name = Some req) \<and>
        length (specAggregate Requests ?cs) = length (specAggregate Limits ?cs)"
  have ne: "\<not> (specAggregate Requests ?cs = [] \<and> specAggregate Limits ?cs = [])"
    using assms(3) by blast
  have G: "list_all (\<lambda>(cid, r). containerQualifies r) ?cs \<and>
              list_all (\<lambda>(name, req). map_of (specAggregate Limits ?cs) name = Some req)
                (specAggregate Requests ?cs) \<and>
              length (specAggregate Requests ?cs) = length (specAggregate Limits ?cs) \<longleftrightarrow> ?G"
    by (auto simp: list_all_iff containerQualifies_def)
  have c: "specQOS ?cs = (if ?G then PodQOSGuaranteed else PodQOSBurstable)"
    unfolding specQOS_def if_not_P [OF ne] G by (rule refl)
  have "GetPodQOS p = Inr (specQOS ?cs, p\<lparr>QOSClass := specQOS ?cs\<rparr>)"
    by (rule GetPodQOS_computes [OF assms(1,2)])
  moreover have "specQOS ?cs = PodQOSGuaranteed \<longleftrightarrow> ?G"
    by (simp add: c class_names_differ(1) [symmetric])
  moreover have "specQOS ?cs \<noteq> PodQOSGuaranteed \<longrightarrow> specQOS ?cs = PodQOSBurstable"
    by (simp add: c)
  ultimately show ?thesis by blast
qed

text \<open>
  Claim C1 at a pod: one container with equal cpu and memory requests and limits is
  Guaranteed.
\<close>

theorem GetPodQOS_guaranteed_iff_witness:
  "\<exists>p'. GetPodQOS (podWith (Some guaranteedResources)) = Inr (PodQOSGuaranteed, p')"
proof -
  have 1: "QOSClass (podWith (Some guaranteedResources)) = []"
    by (simp add: podWith_def)
  have 2: "Resources (podWith (Some guaranteedResources)) = Some guaranteedResources"
    by (simp add: podWith_def)
  have 3: "specAggregate Requests (Containers guaranteedResources) \<noteq> [] \<or>
           specAggregate Limits (Containers guaranteedResources) \<noteq> []"
    by (simp add: example_defs)
  have 4: "(\<forall>(cid, resources) \<in> set (Containers guaranteedResources).
            hasPositive ResourceCPU (Limits resources) \<and>
            hasPositive ResourceMemory (Limits resources)) \<and>
        (\<forall>(name, req) \<in> set (specAggregate Requests (Containers guaranteedResources)).
            map_of (specAggregate Limits (Containers guaranteedResources)) name = Some req) \<and>
        length (specAggregate Requests (Containers guaranteedResources)) =
          length (specAggregate Limits (Containers guaranteedResources))"
    by (simp add: example_defs)
  from GetPodQOS_guaranteed_iff [OF 1 2 3] 4 show ?thesis by blast
qed

text \<open>
  Claim C2. On a pod whose class is not yet stored, the mappings the loops of
  \<^verbatim>\<open>GetPodQOS\<close> build hold exactly the entries of the specification's aggregates: for
  cpu and for memory the sum of the strictly positive quantities, no entry for a kind
  that has none, and none for any other resource name, so every entry is a cpu or memory
  entry with a strictly positive quantity. The class returned is BestEffort
  exactly when both mappings are empty, and a pod whose every declared quantity is 0 is
  BestEffort.
\<close>

theorem GetPodQOS_besteffort_iff:
  assumes "QOSClass p = []" and "Resources p = Some r"
  shows "\<exists>requests limits isGuaranteed c.
     aggregateContainers ([], [], True) (Containers r) = (requests, limits, isGuaranteed) \<and>
     set requests = set (specAggregate Requests (Containers r)) \<and>
     distinct (map fst requests) \<and>
     set limits = set (specAggregate Limits (Containers r)) \<and>
     distinct (map fst limits) \<and>
     (\<forall>(name, q) \<in> set requests \<union> set limits. isSupportedQoSComputeResource name \<and> 0 < q) \<and>
     GetPodQOS p = Inr (c, p\<lparr>QOSClass := c\<rparr>) \<and>
     (c = PodQOSBestEffort \<longleftrightarrow> requests = [] \<and> limits = []) \<and>
     ((\<forall>(cid, resources) \<in> set (Containers r).
          (\<forall>(name, q) \<in> set (Requests resources). q = 0) \<and>
          (\<forall>(name, q) \<in> set (Limits resources). q = 0))
        \<longrightarrow> c = PodQOSBestEffort)"
proof -
  let ?cs = "Containers r"
  obtain requests limits g where agg: "aggregateContainers ([], [], True) ?cs = (requests, limits, g)"
    by (cases "aggregateContainers ([], [], True) ?cs") auto
  have rs: "set requests = set (specAggregate Requests ?cs)"
    and rd: "distinct (map fst requests)"
    using aggregate_requests_spec(1,3) [of ?cs] by (simp_all add: agg)
  have ls: "set limits = set (specAggregate Limits ?cs)"
    and ld: "distinct (map fst limits)"
    using aggregate_limits_spec(1,3) [of ?cs] by (simp_all add: agg)
  have en: "\<forall>(name, q) \<in> set requests \<union> set limits. isSupportedQoSComputeResource name \<and> 0 < q"
    unfolding rs ls using specAggregate_entries by blast
  have e: "requests = [] \<longleftrightarrow> specAggregate Requests ?cs = []"
      "limits = [] \<longleftrightarrow> specAggregate Limits ?cs = []"
    using rs ls by (simp_all flip: set_empty)
  have q: "GetPodQOS p = Inr (specQOS ?cs, p\<lparr>QOSClass := specQOS ?cs\<rparr>)"
    by (rule GetPodQOS_computes [OF assms])
  have b: "specQOS ?cs = PodQOSBestEffort \<longleftrightarrow> requests = [] \<and> limits = []"
    unfolding e by (simp add: specQOS_def class_names_differ)
  have z: "(\<forall>(cid, resources) \<in> set ?cs.
          (\<forall>(name, q) \<in> set (Requests resources). q = 0) \<and>
          (\<forall>(name, q) \<in> set (Limits resources). q = 0))
        \<longrightarrow> specQOS ?cs = PodQOSBestEffort"
  proof
    assume a: "\<forall>(cid, resources) \<in> set ?cs.
          (\<forall>(name, q) \<in> set (Requests resources). q = 0) \<and>
          (\<forall>(name, q) \<in> set (Limits resources). q = 0)"
    have "specAggregate Requests ?cs = []"
      unfolding specAggregate_empty_iff using a by fastforce
    moreover have "specAggregate Limits ?cs = []"
      unfolding specAggregate_empty_iff using a by fastforce
    ultimately show "specQOS ?cs = PodQOSBestEffort"
      by (simp add: specQOS_def)
  qed
  from agg rs rd ls ld en q b z show ?thesis by blast
qed

text \<open>
  Claim C2 at a pod: all declared quantities are 0, the class is BestEffort.
\<close>

theorem GetPodQOS_besteffort_iff_witness:
  "\<exists>p'. GetPodQOS (podWith (Some zeroResources)) = Inr (PodQOSBestEffort, p')"
proof -
  have 1: "QOSClass (podWith (Some zeroResources)) = []"
    by (simp add: podWith_def)
  have 2: "Resources (podWith (Some zeroResources)) = Some zeroResources"
    by (simp add: podWith_def)
  have 3: "\<forall>(cid, resources) \<in> set (Containers zeroResources).
          (\<forall>(name, q) \<in> set (Requests resources). q = 0) \<and>
          (\<forall>(name, q) \<in> set (Limits resources). q = 0)"
    by (simp add: zeroResources_def)
  from GetPodQOS_besteffort_iff [OF 1 2] 3 show ?thesis by blast
qed

text \<open>
  Claim C3, at a cache that holds the container \<open>c1\<close> of pod \<open>podA\<close> and the
  container \<open>c2\<close> of pod \<open>podB\<close>. \<open>podA\<close> has no \<^verbatim>\<open>Resources\<close>:
  \<^verbatim>\<open>GetInitContainers\<close> returns no container, and \<^verbatim>\<open>GetContainers\<close> returns the
  whole collection of the cache, \<open>c2\<close> of the other pod included. No branch of the
  loop compares a container's pod with the pod asked.
\<close>

theorem GetContainers_nil_resources_returns_foreign:
  "Resources podA = None \<and> GetInitContainers podA = [] \<and> GetContainers podA = [c1, c2] \<and>
   PodId c2 = ''podB'' \<and> podId podA = ''podA''"
  by (simp add: podA_def GetInitContainers_def GetContainers_def c2_def)

text \<open>
  Claim C4. \<^verbatim>\<open>fromRunRequest\<close> returns an error exactly when the request has no
  config or the config has no metadata, \<^verbatim>\<open>fromListResponse\<close> exactly when the entry
  has no metadata; the error is a cache error that carries the pod id, and in every other
  case a pod is returned.
\<close>

theorem construction_fails_iff:
  "((\<exists>e. fromRunRequest unmarshal p req = Inl e) \<longleftrightarrow>
      (reqConfig req = None \<or> (\<exists>cfg. reqConfig req = Some cfg \<and> cfgMetadata cfg = None))) \<and>
   ((\<exists>e. fromListResponse unmarshal p sb = Inl e) \<longleftrightarrow> sbMetadata sb = None) \<and>
   (\<forall>e. fromRunRequest unmarshal p req = Inl e \<or> fromListResponse unmarshal p sb = Inl e
      \<longrightarrow> (\<exists>fmt. e = CacheError fmt (podId p))) \<and>
   ((\<exists>p'. fromRunRequest unmarshal p req = Inr p') \<longleftrightarrow>
      (\<exists>cfg meta. reqConfig req = Some cfg \<and> cfgMetadata cfg = Some meta)) \<and>
   ((\<exists>p'. fromListResponse unmarshal p sb = Inr p') \<longleftrightarrow> (\<exists>meta. sbMetadata sb = Some meta))"
  by (auto simp add: fromRunRequest_def fromListResponse_def split: option.splits)

text \<open>
  Claim C4 at a run request with config and metadata, which builds a pod, and at a
  list entry without metadata, which is refused.
\<close>

theorem construction_fails_iff_witness:
  "(\<exists>p'. fromRunRequest noUnmarshal podA runRequest = Inr p') \<and>
   (\<exists>e. fromListResponse noUnmarshal podA (listEntry\<lparr>sbMetadata := None\<rparr>) = Inl e)"
proof -
  have 1: "\<exists>cfg meta. reqConfig runRequest = Some cfg \<and> cfgMetadata cfg = Some meta"
    by (simp add: runRequest_def)
  have 2: "sbMetadata (listEntry\<lparr>sbMetadata := None\<rparr>) = None"
    by simp
  from construction_fails_iff [of noUnmarshal podA runRequest "listEntry\<lparr>sbMetadata := None\<rparr>"]
    1 2 show ?thesis by blast
qed

text \<open>
  Claim C5. Once \<^verbatim>\<open>QOSClass\<close> is not empty \<^verbatim>\<open>GetPodQOS\<close> returns it and leaves the
  pod as it is. Whenever a call returns a class, the class is not empty and is stored, so
  a second call on the pod the first one left returns the same class and the same pod;
  it does so whatever \<^verbatim>\<open>Resources\<close> then holds, which it therefore does not read
  again.
\<close>

theorem GetPodQOS_memoized:
  "(QOSClass p \<noteq> [] \<longrightarrow> GetPodQOS p = Inr (QOSClass p, p)) \<and>
   (\<forall>c p'. GetPodQOS p = Inr (c, p') \<longrightarrow>
      c \<noteq> [] \<and> QOSClass p' = c \<and> GetPodQOS p' = Inr (c, p') \<and>
      (\<forall>res. GetPodQOS (p'\<lparr>Resources := res\<rparr>) = Inr (c, p'\<lparr>Resources := res\<rparr>)))"
proof (cases "QOSClass p = []")
  case False
  then show ?thesis by (auto simp add: GetPodQOS_def)
next
  case True
  show ?thesis
  proof (cases "Resources p")
    case None
    then show ?thesis using True by (simp add: GetPodQOS_def)
  next
    case (Some r)
    have "GetPodQOS p = Inr (specQOS (Containers r), p\<lparr>QOSClass := specQOS (Containers r)\<rparr>)"
      by (rule GetPodQOS_computes [OF True Some])
    then show ?thesis
      using True specQOS_nonempty [of "Containers r"] by (auto simp add: GetPodQOS_def)
  qed
qed

text \<open>
  Claim C5 at a pod: the first call computes Guaranteed, the second returns it from the
  pod the first call left.
\<close>

theorem GetPodQOS_memoized_witness:
  "GetPodQOS (podWith (Some guaranteedResources)) =
     Inr (PodQOSGuaranteed, (podWith (Some guaranteedResources))\<lparr>QOSClass := PodQOSGuaranteed\<rparr>) \<and>
   GetPodQOS ((podWith (Some guaranteedResources))\<lparr>QOSClass := PodQOSGuaranteed\<rparr>) =
     Inr (PodQOSGuaranteed, (podWith (Some guaranteedResources))\<lparr>QOSClass := PodQOSGuaranteed\<rparr>)"
proof -
  let ?p = "podWith (Some guaranteedResources)"
  have 1: "GetPodQOS ?p = Inr (PodQOSGuaranteed, ?p\<lparr>QOSClass := PodQOSGuaranteed\<rparr>)"
    by (simp add: GetPodQOS_def podWith_def guaranteedResources_def emptyCache_def
        ResourceCPU_def ResourceMemory_def isSupportedQoSComputeResource_def zeroQuantity_def
        addQuantity_def)
  from GetPodQOS_memoized [of ?p] 1 show ?thesis by blast
qed

text \<open>
  Claim C6. A run request with config and metadata builds a pod whose state is Ready,
  whatever the request and the pod held before; a list entry with metadata builds a pod
  whose state is the entry's state.
\<close>

theorem construction_state:
  "(\<forall>cfg meta. reqConfig req = Some cfg \<and> cfgMetadata cfg = Some meta \<longrightarrow>
      (\<exists>p'. fromRunRequest unmarshal p req = Inr p' \<and> State p' = PodStateReady)) \<and>
   (\<forall>meta. sbMetadata sb = Some meta \<longrightarrow>
      (\<exists>p'. fromListResponse unmarshal p sb = Inr p' \<and> State p' = sbState sb))"
  by (auto simp add: fromRunRequest_def fromListResponse_def built_pod(2))

text \<open>
  Claim C6 at a run request applied to a pod in state 5, and at a list entry in state
  1.
\<close>

theorem construction_state_witness:
  "(\<exists>p'. fromRunRequest noUnmarshal (podA\<lparr>State := 5\<rparr>) runRequest = Inr p' \<and>
      State p' = PodStateReady) \<and>
   (\<exists>p'. fromListResponse typeErrorUnmarshal podA listEntry = Inr p' \<and> State p' = 1)"
proof -
  have 1: "reqConfig runRequest = Some \<lparr>cfgMetadata = Some \<lparr>mdName = ''web'', mdNamespace = ''default''\<rparr>,
     cfgLabels = [(''io.kubernetes.pod.uid'', ''u-1'')], cfgAnnotations = [],
     cfgLinux = Some \<lparr>lnxCgroupParent = ''/kubepods''\<rparr>\<rparr> \<and>
     cfgMetadata \<lparr>cfgMetadata = Some \<lparr>mdName = ''web'', mdNamespace = ''default''\<rparr>,
     cfgLabels = [(''io.kubernetes.pod.uid'', ''u-1'')], cfgAnnotations = [],
     cfgLinux = Some \<lparr>lnxCgroupParent = ''/kubepods''\<rparr>\<rparr>
       = Some \<lparr>mdName = ''web'', mdNamespace = ''default''\<rparr>"
    by (simp add: runRequest_def)
  have 2: "sbMetadata listEntry = Some \<lparr>mdName = ''web'', mdNamespace = ''default''\<rparr>"
    and 3: "sbState listEntry = 1"
    by (simp_all add: listEntry_def)
  have a: "\<exists>p'. fromRunRequest noUnmarshal (podA\<lparr>State := 5\<rparr>) runRequest = Inr p' \<and>
      State p' = PodStateReady"
    using construction_state [of runRequest noUnmarshal "podA\<lparr>State := 5\<rparr>" listEntry] 1
    by blast
  have b: "\<exists>p'. fromListResponse typeErrorUnmarshal podA listEntry = Inr p' \<and>
      State p' = sbState listEntry"
    using construction_state [of runRequest typeErrorUnmarshal podA listEntry] 2
    by blast
  from a b show ?thesis unfolding 3 by blast
qed

text \<open>
  Claim C7. Let an annotation hold an encoding of the value \<open>V\<close> of type string, bool,
  int, uint, int64 or uint64: the string itself, \<^verbatim>\<open>true\<close> or \<^verbatim>\<open>false\<close>, the decimal
  digits with a minus sign for a negative number, or the hexadecimal digits after
  \<^verbatim>\<open>0x\<close>. \<^verbatim>\<open>GetAnnotationObject\<close> with no custom decoder and a target of the type of
  \<open>V\<close> returns \<^verbatim>\<open>(true, nil)\<close>, leaves \<open>V\<close> in the target and logs nothing.
\<close>

theorem GetAnnotationObject_roundtrip:
  assumes "map_of (Annotations p) key = Some s"
    and "s \<in> set (encodings V)"
    and "sameType target V"
  shows "GetAnnotationObject unmarshal p key target None = ((True, None), V, p)"
proof (cases V)
  case (PString v)
  then show ?thesis
    using assms by (cases target) (simp_all add: GetAnnotationObject_def GetAnnotation_def)
next
  case (PBool b)
  then show ?thesis
    using assms
    by (cases target)
       (simp_all add: GetAnnotationObject_def GetAnnotation_def ParseBool_FormatBool)
next
  case (PInt i)
  then have "ParseInt s 0 0 = (sint i, None)"
    using assms(2) by (intro ParseInt_encodings) auto
  then show ?thesis
    using assms PInt by (cases target) (simp_all add: GetAnnotationObject_def GetAnnotation_def)
next
  case (PUint u)
  then have "ParseUint s 0 0 = (unat u, None)"
    using assms(2) by (intro ParseUint_encodings) auto
  then show ?thesis
    using assms PUint by (cases target) (simp_all add: GetAnnotationObject_def GetAnnotation_def)
next
  case (PInt64 i)
  then have "ParseInt s 0 64 = (sint i, None)"
    using assms(2) by (intro ParseInt_encodings) auto
  then show ?thesis
    using assms PInt64 by (cases target) (simp_all add: GetAnnotationObject_def GetAnnotation_def)
next
  case (PUint64 u)
  then have "ParseUint s 0 64 = (unat u, None)"
    using assms(2) by (intro ParseUint_encodings) auto
  then show ?thesis
    using assms PUint64 by (cases target) (simp_all add: GetAnnotationObject_def GetAnnotation_def)
next
  case (POther x)
  then show ?thesis using assms(2) by simp
qed

text \<open>
  Claim C7 at the annotation \<^verbatim>\<open>-0x1f\<close> and an \<^verbatim>\<open>int\<close> target that held 7.
\<close>

theorem GetAnnotationObject_roundtrip_witness:
  "GetAnnotationObject (\<lambda>s (x::unit). (None, x)) annotatedPod ''offset'' (PInt 7) None
     = ((True, None), PInt (- 31), annotatedPod)"
proof -
  have 1: "map_of (Annotations annotatedPod) ''offset'' = Some ''-0x1f''"
    by (simp add: annotatedPod_def)
  have 2: "''-0x1f'' \<in> set (encodings (PInt (- 31) :: unit objPtr))"
    by (simp add: hexInt_def hexUint_def formatUint_simps' digitChar_def)
  have 3: "sameType (PInt 7 :: unit objPtr) (PInt (- 31))"
    by simp
  show ?thesis
    by (rule GetAnnotationObject_roundtrip [OF 1 2 3])
qed

text \<open>
  Claim C8 fails as stated. The annotation of the pod below is one the decoder fails
  on after it has written the entry of one container into the target:
  \<^verbatim>\<open>GetAnnotationObject\<close> returns the error, \<^verbatim>\<open>parseResourceAnnotations\<close> drops it,
  and the model keeps that entry.
\<close>

theorem parseResourceAnnotations_partial_counterexample:
  "map_of (Annotations (podA\<lparr>Annotations := sbAnnotations listEntry\<rparr>)) KeyResourceAnnotation
      = Some typeErrorAnnotation \<and>
   fst (GetAnnotationObject typeErrorUnmarshal
      (podA\<lparr>Annotations := sbAnnotations listEntry\<rparr>) KeyResourceAnnotation
      (POther zeroPodResourceRequirements) None)
      = (True, Some (DecodeError ''json: cannot unmarshal number into Go struct field'')) \<and>
   Resources (parseResourceAnnotations typeErrorUnmarshal
      (podA\<lparr>Annotations := sbAnnotations listEntry\<rparr>))
      = Some \<lparr>InitContainers = [], Containers = [(''c0'', \<lparr>Limits = [], Requests = []\<rparr>)]\<rparr> \<and>
   Resources (parseResourceAnnotations typeErrorUnmarshal
      (podA\<lparr>Annotations := sbAnnotations listEntry\<rparr>))
      \<noteq> Some zeroPodResourceRequirements"
  by (simp add: parseResourceAnnotations_def GetAnnotationObject_def GetAnnotation_def
      podA_def listEntry_def KeyResourceAnnotation_def typeErrorUnmarshal_def
      zeroPodResourceRequirements_def cacheLogError_def)

text \<open>
  Claim C8 as amended. Without the resource annotation \<^verbatim>\<open>parseResourceAnnotations\<close>
  leaves the model at its zero value. With the annotation the model is what the decoder
  left in a fresh zero model, whether the decoder reported an error or not; after a
  failed decode it is the zero value when the decoder left its target untouched. What
  \<^verbatim>\<open>Resources\<close> held before the call plays no part.
\<close>

theorem parseResourceAnnotations_result:
  "(map_of (Annotations p) KeyResourceAnnotation = None \<longrightarrow>
      Resources (parseResourceAnnotations unmarshal p) = Some zeroPodResourceRequirements) \<and>
   (\<forall>v. map_of (Annotations p) KeyResourceAnnotation = Some v \<longrightarrow>
      Resources (parseResourceAnnotations unmarshal p)
        = Some (snd (unmarshal v zeroPodResourceRequirements))) \<and>
   (\<forall>v e. map_of (Annotations p) KeyResourceAnnotation = Some v \<and>
      unmarshal v zeroPodResourceRequirements = (Some e, zeroPodResourceRequirements) \<longrightarrow>
      Resources (parseResourceAnnotations unmarshal p) = Some zeroPodResourceRequirements)"
  by (simp add: parseResourceAnnotations_Resources)

text \<open>
  Claim C8 as amended, at a pod without the annotation and at a pod whose annotation
  the decoder refuses without touching the target.
\<close>

theorem parseResourceAnnotations_result_witness:
  "Resources (parseResourceAnnotations noUnmarshal podA) = Some zeroPodResourceRequirements \<and>
   Resources (parseResourceAnnotations noUnmarshal
      (podA\<lparr>Annotations := [(KeyResourceAnnotation, ''{'')]\<rparr>)) = Some zeroPodResourceRequirements"
proof -
  have 1: "map_of (Annotations podA) KeyResourceAnnotation = None"
    by (simp add: podA_def)
  have 2: "map_of (Annotations (podA\<lparr>Annotations := [(KeyResourceAnnotation, ''{'')]\<rparr>))
      KeyResourceAnnotation = Some ''{'' \<and>
      noUnmarshal ''{'' zeroPodResourceRequirements
        = (Some (DecodeError ''unexpected end of JSON input''), zeroPodResourceRequirements)"
    by (simp add: noUnmarshal_def)
  from parseResourceAnnotations_result [of podA noUnmarshal] 1
  have a: "Resources (parseResourceAnnotations noUnmarshal podA) = Some zeroPodResourceRequirements"
    by blast
  from parseResourceAnnotations_result
    [of "podA\<lparr>Annotations := [(KeyResourceAnnotation, ''{'')]\<rparr>" noUnmarshal] 2
  have b: "Resources (parseResourceAnnotations noUnmarshal
      (podA\<lparr>Annotations := [(KeyResourceAnnotation, ''{'')]\<rparr>)) = Some zeroPodResourceRequirements"
    by blast
  from a b show ?thesis by blast
qed

text \<open>
  Claim C9, at a pod whose \<^verbatim>\<open>QOSClass\<close> is empty and whose \<^verbatim>\<open>Resources\<close> is nil:
  \<^verbatim>\<open>GetPodQOS\<close> reads \<^verbatim>\<open>podResources.Containers\<close> through the nil pointer and
  panics. \<^verbatim>\<open>GetInitContainers\<close>, \<^verbatim>\<open>GetContainers\<close> and
  \<^verbatim>\<open>GetPodResourceRequirements\<close> test the pointer first.
\<close>

theorem GetPodQOS_nil_resources_panics:
  "QOSClass podA = [] \<and> Resources podA = None \<and> GetPodQOS podA = Inl NilPointerDereference"
  by (simp add: podA_def GetPodQOS_def)

text \<open>
  Claim C10. A pod that \<^verbatim>\<open>fromRunRequest\<close> or \<^verbatim>\<open>fromListResponse\<close> returned has
  \<^verbatim>\<open>Resources\<close> set: \<^verbatim>\<open>GetInitContainers\<close> and \<^verbatim>\<open>GetContainers\<close> select the
  containers of the cache by their id in the model, and \<^verbatim>\<open>GetPodResourceRequirements\<close>
  returns the model. When the pod has no resource annotation the model is the zero
  value and \<^verbatim>\<open>GetContainers\<close> selects no container.
\<close>

theorem constructed_pod_has_resources:
  assumes "fromRunRequest unmarshal p req = Inr p' \<or> fromListResponse unmarshal p sb = Inr p'"
  shows "\<exists>r. Resources p' = Some r \<and>
     GetInitContainers p' =
       filter (\<lambda>c. map_of (InitContainers r) (Id c) \<noteq> None) (cacheContainers (podCache p')) \<and>
     GetContainers p' =
       filter (\<lambda>c. map_of (Containers r) (Id c) \<noteq> None) (cacheContainers (podCache p')) \<and>
     GetPodResourceRequirements p' = r \<and>
     (map_of (Annotations p') KeyResourceAnnotation = None \<longrightarrow>
        r = zeroPodResourceRequirements \<and> GetContainers p' = [])"
proof -
  obtain p0 where p': "p' = extractLabels (parseResourceAnnotations unmarshal p0)"
    using built_from_message [OF assms] by blast
  define r where "r = (case map_of (Annotations p') KeyResourceAnnotation of
             None \<Rightarrow> zeroPodResourceRequirements
           | Some v \<Rightarrow> snd (unmarshal v zeroPodResourceRequirements))"
  have res: "Resources p' = Some r"
    unfolding r_def p' by (rule built_pod(1))
  have i: "GetInitContainers p' =
       filter (\<lambda>c. map_of (InitContainers r) (Id c) \<noteq> None) (cacheContainers (podCache p'))"
    by (simp add: GetInitContainers_def res collectInitContainers_filter)
  have c: "GetContainers p' =
       filter (\<lambda>c. map_of (Containers r) (Id c) \<noteq> None) (cacheContainers (podCache p'))"
    by (simp add: GetContainers_def res collectContainers_Some)
  have g: "GetPodResourceRequirements p' = r"
    by (simp add: GetPodResourceRequirements_def res)
  have z: "map_of (Annotations p') KeyResourceAnnotation = None \<longrightarrow>
        r = zeroPodResourceRequirements \<and> GetContainers p' = []"
    by (simp add: c) (simp add: r_def zeroPodResourceRequirements_def)
  show ?thesis
    by (rule exI [of _ r]) (intro conjI res i c g z)
qed

text \<open>
  Claim C10 at a run request without annotations.
\<close>

theorem constructed_pod_has_resources_witness:
  "\<exists>p'. fromRunRequest noUnmarshal podA runRequest = Inr p' \<and>
     Resources p' = Some zeroPodResourceRequirements \<and> GetContainers p' = []"
proof -
  have "\<exists>cfg meta. reqConfig runRequest = Some cfg \<and> cfgMetadata cfg = Some meta \<and>
      cfgAnnotations cfg = []"
    by (simp add: runRequest_def)
  then obtain cfg meta where c: "reqConfig runRequest = Some cfg" "cfgMetadata cfg = Some meta"
      "cfgAnnotations cfg = []"
    by blast
  have "\<exists>p'. fromRunRequest noUnmarshal podA runRequest = Inr p'"
    using c(1,2) by (simp add: fromRunRequest_def)
  then obtain p' where p': "fromRunRequest noUnmarshal podA runRequest = Inr p'"
    by blast
  have a: "map_of (Annotations p') KeyResourceAnnotation = None"
    using fromRunRequest_Annotations [OF p' c(1)] c(3) by simp
  from constructed_pod_has_resources [of noUnmarshal podA runRequest p' listEntry] p'
  obtain r where "Resources p' = Some r"
    and "map_of (Annotations p') KeyResourceAnnotation = None \<longrightarrow>
        r = zeroPodResourceRequirements \<and> GetContainers p' = []"
    by auto
  with a p' show ?thesis by simp
qed

end
